theory Spec2Isabelle
  imports Complex_Main "HOL-Library.Multiset"
begin

unbundle bit_operations_syntax

section \<open>Values and errors of the Python program\<close>

text \<open>
  The program is one Python script, \<^verbatim>\<open>app.py\<close>. Strings are modelled as lists of
  ASCII characters; the digits and blanks of other scripts, which the interpreter also
  accepts in a number, are outside this model. An exception is a value of \<open>py_error\<close>,
  and a function that can raise returns \<open>py_error + 'a\<close> with \<open>Inl\<close> for the exception.
\<close>

datatype py_error = TypeError | ValueError | IndexError

text \<open>
  What a cell of the schedule table (or an argument of \<^verbatim>\<open>check_week_range\<close>) can hold:
  nothing (\<^verbatim>\<open>None\<close> or NaN, for which \<^verbatim>\<open>pd.isna\<close> is true), a string, or a number
  (a spreadsheet column of numbers is read as numbers, not as text).
\<close>

datatype cell = Missing | Text string | Number int

subsection \<open>The builtin \<^verbatim>\<open>int(str)\<close> and \<^verbatim>\<open>str.split(sep)\<close>\<close>

definition py_isspace :: "char \<Rightarrow> bool" where
  "py_isspace c = (c \<in> set [CHR 0x09, CHR 0x0A, CHR 0x0B, CHR 0x0C, CHR 0x0D, CHR 0x20])"

definition digit_val :: "char \<Rightarrow> nat option" where
  "digit_val c =
     (let n = (of_char c :: nat) in if 48 \<le> n \<and> n \<le> 57 then Some (n - 48) else None)"

text \<open>
  The digits of a decimal literal after its first digit: a single underscore may stand
  between two digits, nowhere else.
\<close>

fun digits_acc :: "nat \<Rightarrow> string \<Rightarrow> nat option" where
  "digits_acc n [] = Some n"
| "digits_acc n (c # cs) =
     (if c = CHR ''_'' then
        (case cs of
           [] \<Rightarrow> None
         | d # ds \<Rightarrow>
             (case digit_val d of None \<Rightarrow> None | Some k \<Rightarrow> digits_acc (10 * n + k) ds))
      else
        (case digit_val c of None \<Rightarrow> None | Some k \<Rightarrow> digits_acc (10 * n + k) cs))"

definition digits_value :: "string \<Rightarrow> nat option" where
  "digits_value s =
     (case s of
        [] \<Rightarrow> None
      | c # cs \<Rightarrow> (case digit_val c of None \<Rightarrow> None | Some k \<Rightarrow> digits_acc k cs))"

definition strip :: "string \<Rightarrow> string" where
  "strip s = rev (dropWhile py_isspace (rev (dropWhile py_isspace s)))"

text \<open>
  \<^verbatim>\<open>int(s)\<close>: blanks around the number are skipped, one sign may come first, then the
  digits; anything else raises \<^verbatim>\<open>ValueError\<close>. The interpreter's optional limit on the
  number of digits is taken as switched off.
\<close>

definition py_int :: "string \<Rightarrow> py_error + int" where
  "py_int s =
     (let t = strip s;
          neg = (t \<noteq> [] \<and> hd t = CHR ''-'');
          body = (if t \<noteq> [] \<and> (hd t = CHR ''-'' \<or> hd t = CHR ''+'') then tl t else t)
      in case digits_value body of
           None \<Rightarrow> Inl ValueError
         | Some n \<Rightarrow> Inr (if neg then - int n else int n))"

text \<open>\<^verbatim>\<open>s.split(c)\<close> for a separator of one character: never an empty list.\<close>

fun split_on :: "char \<Rightarrow> string \<Rightarrow> string list" where
  "split_on c [] = [[]]"
| "split_on c (x # xs) =
     (if x = c then [] # split_on c xs
      else (case split_on c xs of [] \<Rightarrow> [[x]] | p # ps \<Rightarrow> (x # p) # ps))"

text \<open>
  \<^verbatim>\<open>a, b = map(int, parts)\<close>: the conversions run one by one as the unpacking asks for
  them; the first failure is raised, and so are fewer or more than two values.
\<close>

fun unpack2 :: "(py_error + int) list \<Rightarrow> py_error + (int \<times> int)" where
  "unpack2 [] = Inl ValueError"
| "unpack2 (Inl e # _) = Inl e"
| "unpack2 [Inr a] = Inl ValueError"
| "unpack2 (Inr a # Inl e # _) = Inl e"
| "unpack2 [Inr a, Inr b] = Inr (a, b)"
| "unpack2 (Inr a # Inr b # Inl e # _) = Inl e"
| "unpack2 (Inr a # Inr b # Inr c # _) = Inl ValueError"

text \<open>\<^verbatim>\<open>list(map(int, parts))\<close>: all the values, or the first failure.\<close>

fun collect :: "(py_error + 'a) list \<Rightarrow> py_error + 'a list" where
  "collect [] = Inr []"
| "collect (Inl e # _) = Inl e"
| "collect (Inr a # rs) = (case collect rs of Inl e \<Rightarrow> Inl e | Inr as \<Rightarrow> Inr (a # as))"

section \<open>The week-range matcher\<close>

text \<open>
  \<^verbatim>\<open>check_week_range(week_str, current_week)\<close>. The test \<^verbatim>\<open>"-" in week_str\<close> stands
  outside every \<^verbatim>\<open>try\<close>: on a number it raises \<^verbatim>\<open>TypeError\<close>. Each of the three
  branches has its own \<^verbatim>\<open>try\<close> with a bare \<^verbatim>\<open>except\<close> that returns \<^verbatim>\<open>False\<close>.
\<close>

definition check_week_range :: "cell \<Rightarrow> int \<Rightarrow> py_error + bool" where
  "check_week_range week_str current_week =
     (case week_str of
        Missing \<Rightarrow> Inr True
      | Number n \<Rightarrow> Inl TypeError
      | Text s \<Rightarrow>
          if s = [] then Inr True
          else if CHR ''-'' \<in> set s then
            (case unpack2 (map py_int (split_on CHR ''-'' s)) of
               Inr (start_week, end_week) \<Rightarrow>
                 Inr (start_week \<le> current_week \<and> current_week \<le> end_week)
             | Inl e \<Rightarrow> Inr False)
          else if CHR '','' \<in> set s then
            (case collect (map py_int (split_on CHR '','' s)) of
               Inr week_list \<Rightarrow> Inr (current_week \<in> set week_list)
             | Inl e \<Rightarrow> Inr False)
          else
            (case py_int s of
               Inr n \<Rightarrow> Inr (n = current_week)
             | Inl e \<Rightarrow> Inr False))"

section \<open>Times and dates\<close>

text \<open>
  A \<^verbatim>\<open>datetime.time\<close> with seconds zero is the number of minutes after midnight
  (\<^verbatim>\<open>time(h, m)\<close> is \<open>60 * h + m\<close>; the order of the numbers is the order of the times).
  A naive \<^verbatim>\<open>datetime\<close> is the number of microseconds since 0001-01-01 00:00, which is a
  Monday; a \<^verbatim>\<open>timedelta\<close> is a difference of two such numbers. The clock
  (\<^verbatim>\<open>datetime.now()\<close>) is a parameter of every function that reads it, one per reading.
\<close>

type_synonym time = nat
type_synonym datetime = int

definition day_us :: int where
  "day_us = 86400000000"

definition minute_us :: int where
  "minute_us = 60000000"

definition date_of :: "datetime \<Rightarrow> int" where
  "date_of t = t div day_us"

definition isoweekday :: "datetime \<Rightarrow> int" where
  "isoweekday t = date_of t mod 7 + 1"

definition combine :: "int \<Rightarrow> time \<Rightarrow> datetime" where
  "combine d t = d * day_us + int t * minute_us"

definition timedelta_days :: "int \<Rightarrow> int" where
  "timedelta_days d = d div day_us"

text \<open>
  \<^verbatim>\<open>datetime.strptime(s, "%H:%M")\<close>. The library turns the format into a regular
  expression, the hour being \<^verbatim>\<open>2[0-3]|[0-1]\d|\d\<close> and the minute \<^verbatim>\<open>[0-5]\d|\d\<close>,
  takes the first match at the start of the string and raises \<^verbatim>\<open>ValueError\<close> when there
  is none or when text is left after it.
\<close>

definition hour_alts :: "string \<Rightarrow> (nat \<times> string) list" where
  "hour_alts s =
     (case s of
        [] \<Rightarrow> []
      | c # r \<Rightarrow>
          (case digit_val c of
             None \<Rightarrow> []
           | Some a \<Rightarrow>
               (case r of
                  [] \<Rightarrow> []
                | d # r' \<Rightarrow>
                    (case digit_val d of
                       None \<Rightarrow> []
                     | Some b \<Rightarrow> if (a = 2 \<and> b \<le> 3) \<or> a \<le> 1 then [(10 * a + b, r')] else []))
               @ [(a, r)]))"

definition minute_alt :: "string \<Rightarrow> (nat \<times> string) option" where
  "minute_alt s =
     (case s of
        [] \<Rightarrow> None
      | c # r \<Rightarrow>
          (case digit_val c of
             None \<Rightarrow> None
           | Some a \<Rightarrow>
               (case r of
                  [] \<Rightarrow> Some (a, r)
                | d # r' \<Rightarrow>
                    (case digit_val d of
                       None \<Rightarrow> Some (a, r)
                     | Some b \<Rightarrow> if a \<le> 5 then Some (10 * a + b, r') else Some (a, r)))))"

fun first_match :: "(nat \<times> string) list \<Rightarrow> (nat \<times> nat \<times> string) option" where
  "first_match [] = None"
| "first_match ((h, r) # alts) =
     (case r of
        [] \<Rightarrow> first_match alts
      | c # r' \<Rightarrow>
          if c = CHR '':'' then
            (case minute_alt r' of
               None \<Rightarrow> first_match alts
             | Some (m, rest) \<Rightarrow> Some (h, m, rest))
          else first_match alts)"

definition strptime_hm :: "string \<Rightarrow> py_error + time" where
  "strptime_hm s =
     (case first_match (hour_alts s) of
        None \<Rightarrow> Inl ValueError
      | Some (h, m, rest) \<Rightarrow> if rest = [] then Inr (60 * h + m) else Inl ValueError)"

text \<open>
  \<^verbatim>\<open>parse_course_time\<close>: the whole body is in a \<^verbatim>\<open>try\<close> with a bare \<^verbatim>\<open>except\<close>, so a
  string that does not parse and a cell that is no string (\<^verbatim>\<open>strptime\<close> raises
  \<^verbatim>\<open>TypeError\<close> on it) both give midnight. The message it shows then is not modelled.
\<close>

definition parse_course_time :: "cell \<Rightarrow> time" where
  "parse_course_time time_str =
     (case time_str of
        Text s \<Rightarrow> (case strptime_hm s of Inr t \<Rightarrow> t | Inl e \<Rightarrow> 0)
      | Missing \<Rightarrow> 0
      | Number n \<Rightarrow> 0)"

section \<open>The session state\<close>

text \<open>
  A row of the schedule table has the seven columns the upload must have, in the order
  of the template: weekday (\<open>xingqi\<close>), start time, end time, course name, place, teacher
  and week range (\<open>zhouci\<close>). Further columns of an uploaded sheet play no part in the
  program and are left out.
\<close>

record row =
  weekday :: cell
  start_time :: cell
  end_time :: cell
  course_name :: cell
  place :: cell
  teacher :: cell
  weeks :: cell

text \<open>An adjustment is the dictionary the form appends: nine entries, the weekday a number.\<close>

record adjustment =
  adj_weekday :: int
  adj_weeks :: string
  orig_name :: string
  orig_start :: string
  new_name :: string
  new_start :: string
  new_end :: string
  new_place :: string
  new_teacher :: string

text \<open>
  A \<^verbatim>\<open>DataFrame\<close> is an object that can be changed in place, and two names can stand for
  the same object. The objects live in a store, \<open>frames\<close>, and are named by their address
  (the position in the store). \<open>start_obj\<close> is the column of parsed start times that
  \<^verbatim>\<open>get_today_courses\<close> adds before sorting and drops afterwards.
\<close>

type_synonym addr = nat

record frame =
  rows :: "row list"
  start_obj :: "time list option"

record state =
  course_data :: "addr option"
  remind_minutes :: int
  adjust_courses :: "adjustment list"
  current_remind :: "row option"
  semester_start :: string
  frames :: "frame list"

definition alloc :: "frame \<Rightarrow> state \<Rightarrow> addr \<times> state" where
  "alloc f st = (length (frames st), st\<lparr>frames := frames st @ [f]\<rparr>)"

definition deref :: "state \<Rightarrow> addr \<Rightarrow> frame" where
  "deref st a = frames st ! a"

definition put :: "addr \<Rightarrow> frame \<Rightarrow> state \<Rightarrow> state" where
  "put a f st = st\<lparr>frames := (frames st)[a := f]\<rparr>"

section \<open>The week number\<close>

text \<open>
  \<^verbatim>\<open>get_week_num\<close>. \<open>strptime_ymd\<close> is the library's
  \<^verbatim>\<open>datetime.strptime(s, "%Y-%m-%d")\<close>: the midnight that begins the date, or
  \<^verbatim>\<open>ValueError\<close>. Any exception gives week 1.
\<close>

definition get_week_num :: "(string \<Rightarrow> py_error + datetime) \<Rightarrow> state \<Rightarrow> datetime \<Rightarrow> int" where
  "get_week_num strptime_ymd st now =
     (case strptime_ymd (semester_start st) of
        Inl e \<Rightarrow> 1
      | Inr start_date \<Rightarrow>
          if now < start_date then 0
          else timedelta_days (now - start_date) div 7 + 1)"

section \<open>Today's courses\<close>

text \<open>\<^verbatim>\<open>df[mask]\<close>: the rows at which the boolean mask is true.\<close>

definition select_rows :: "bool list \<Rightarrow> row list \<Rightarrow> row list" where
  "select_rows msk rs = map snd (filter fst (zip msk rs))"

text \<open>
  \<^verbatim>\<open>today_courses.loc[mask, [...]] = [...]\<close>: in every row of the mask the five
  columns get the adjustment's new values.
\<close>

definition replace_with :: "adjustment \<Rightarrow> row \<Rightarrow> row" where
  "replace_with adjust r =
     r\<lparr>course_name := Text (new_name adjust), place := Text (new_place adjust),
       teacher := Text (new_teacher adjust), start_time := Text (new_start adjust),
       end_time := Text (new_end adjust)\<rparr>"

definition loc_assign :: "bool list \<Rightarrow> adjustment \<Rightarrow> row list \<Rightarrow> row list" where
  "loc_assign msk adjust rs = map (\<lambda>(m, r). if m then replace_with adjust r else r) (zip msk rs)"

definition new_course :: "adjustment \<Rightarrow> row" where
  "new_course adjust =
     \<lparr>weekday = Number (adj_weekday adjust), start_time = Text (new_start adjust),
      end_time = Text (new_end adjust), course_name = Text (new_name adjust),
      place = Text (new_place adjust), teacher = Text (new_teacher adjust),
      weeks = Text (adj_weeks adjust)\<rparr>"

text \<open>
  The loop over the adjustments. \<open>tc\<close> is the object the name \<^verbatim>\<open>today_courses\<close> stands
  for: the assignment through \<^verbatim>\<open>.loc\<close> changes that object, \<^verbatim>\<open>pd.concat\<close> makes a new one.
\<close>

fun merge_adjusts :: "int \<Rightarrow> int \<Rightarrow> adjustment list \<Rightarrow> addr \<Rightarrow> state \<Rightarrow> py_error + (addr \<times> state)" where
  "merge_adjusts today_weekday current_week [] tc st = Inr (tc, st)"
| "merge_adjusts today_weekday current_week (adjust # rest) tc st =
     (if adj_weekday adjust = today_weekday then
        (case check_week_range (Text (adj_weeks adjust)) current_week of
           Inl e \<Rightarrow> Inl e
         | Inr False \<Rightarrow> merge_adjusts today_weekday current_week rest tc st
         | Inr True \<Rightarrow>
             (let f = deref st tc;
                  msk = map (\<lambda>r. start_time r = Text (orig_start adjust)
                                   \<and> course_name r = Text (orig_name adjust)) (rows f)
              in if list_ex id msk then
                   merge_adjusts today_weekday current_week rest tc
                     (put tc (f\<lparr>rows := loc_assign msk adjust (rows f)\<rparr>) st)
                 else
                   (let (nc, st1) = alloc \<lparr>rows = [new_course adjust], start_obj = None\<rparr> st;
                        (tc', st2) =
                          alloc \<lparr>rows = rows (deref st1 tc) @ rows (deref st1 nc),
                                 start_obj = None\<rparr> st1
                    in merge_adjusts today_weekday current_week rest tc' st2)))
      else merge_adjusts today_weekday current_week rest tc st)"

text \<open>
  \<^verbatim>\<open>get_today_courses\<close>. \<open>argsort\<close> is the library's sort behind \<^verbatim>\<open>sort_values\<close>: from
  the keys to the positions in sorted order. The result is the address of the table
  returned, with the store in which it lives.
\<close>

definition take_rows :: "nat list \<Rightarrow> 'a list \<Rightarrow> 'a list" where
  "take_rows idx xs = map (\<lambda>i. xs ! i) idx"

definition get_today_courses ::
  "(time list \<Rightarrow> nat list) \<Rightarrow> (string \<Rightarrow> py_error + datetime) \<Rightarrow> datetime \<Rightarrow> datetime
     \<Rightarrow> state \<Rightarrow> py_error + (addr \<times> state)" where
  "get_today_courses argsort strptime_ymd now1 now2 st =
     (case course_data st of
        None \<Rightarrow> Inr (alloc \<lparr>rows = [], start_obj = None\<rparr> st)
      | Some cd \<Rightarrow>
          (let today_weekday = isoweekday now1;
               current_week = get_week_num strptime_ymd st now2;
               base = rows (deref st cd);
               day_mask = map (\<lambda>r. weekday r = Number today_weekday) base
           in case collect (map (\<lambda>r. check_week_range (weeks r) current_week) base) of
                Inl e \<Rightarrow> Inl e
              | Inr week_mask \<Rightarrow>
                  (let (sel, st1) =
                         alloc \<lparr>rows = select_rows (map2 (\<and>) day_mask week_mask) base,
                                start_obj = None\<rparr> st;
                       (tc, st2) = alloc (deref st1 sel) st1
                   in case merge_adjusts today_weekday current_week (adjust_courses st2) tc st2 of
                        Inl e \<Rightarrow> Inl e
                      | Inr (tc', st3) \<Rightarrow>
                          (let f = deref st3 tc';
                               keys = map (\<lambda>r. parse_course_time (start_time r)) (rows f);
                               st4 = put tc' (f\<lparr>start_obj := Some keys\<rparr>) st3;
                               idx = argsort keys;
                               (srt, st5) =
                                 alloc \<lparr>rows = take_rows idx (rows (deref st4 tc')),
                                        start_obj = Some (take_rows idx keys)\<rparr> st4;
                               (res, st6) = alloc ((deref st5 srt)\<lparr>start_obj := None\<rparr>) st5
                           in Inr (res, st6)))))"

section \<open>The reminder\<close>

fun remind_scan :: "datetime \<Rightarrow> datetime \<Rightarrow> row list \<Rightarrow> row option" where
  "remind_scan now remind_time [] = None"
| "remind_scan now remind_time (course # rest) =
     (let course_start = combine (date_of now) (parse_course_time (start_time course))
      in if now \<le> course_start \<and> course_start \<le> remind_time then Some course
         else remind_scan now remind_time rest)"

definition check_remind ::
  "(time list \<Rightarrow> nat list) \<Rightarrow> (string \<Rightarrow> py_error + datetime) \<Rightarrow> datetime \<Rightarrow> datetime \<Rightarrow> datetime
     \<Rightarrow> state \<Rightarrow> py_error + state" where
  "check_remind argsort strptime_ymd now1 now2 now3 st =
     (case get_today_courses argsort strptime_ymd now1 now2 st of
        Inl e \<Rightarrow> Inl e
      | Inr (a, st1) \<Rightarrow>
          (let today_courses = rows (deref st1 a)
           in if today_courses = [] then Inr (st1\<lparr>current_remind := None\<rparr>)
              else
                (let remind_time = now3 + remind_minutes st1 * minute_us
                 in Inr (st1\<lparr>current_remind := remind_scan now3 remind_time today_courses\<rparr>))))"

section \<open>The upload\<close>

text \<open>
  The block that runs when a file was uploaded. \<open>df\<close> is the table
  \<^verbatim>\<open>pd.read_excel\<close> returned: its column names and its rows (the entry of a row for a
  required column the sheet lacks means nothing). \<open>to_int_column\<close> is the library's
  \<^verbatim>\<open>pd.to_numeric(..., errors="coerce").fillna(0).astype(int)\<close> on the weekday column.
\<close>

datatype column = Weekday | StartTime | EndTime | CourseName | Place | Teacher | Weeks | Other string

definition required_cols :: "column list" where
  "required_cols = [Weekday, StartTime, EndTime, CourseName, Place, Teacher, Weeks]"

record sheet =
  columns :: "column list"
  sheet_rows :: "row list"

datatype notice = ImportSucceeded | MissingColumns | ImportFailed py_error

text \<open>
  The truth value of a \<^verbatim>\<open>Series\<close>: the library raises \<^verbatim>\<open>ValueError\<close> (the truth value
  of a Series is ambiguous), whatever the series holds.
\<close>

definition series_bool :: "bool list \<Rightarrow> py_error + bool" where
  "series_bool s = Inl ValueError"

text \<open>
  The mask \<^verbatim>\<open>df[w] >= 1 & df[w] <= 7\<close>. In Python \<^verbatim>\<open>&\<close> binds tighter than a
  comparison, so this is the chain \<^verbatim>\<open>df[w] >= (1 & df[w]) <= 7\<close>, that is
  \<^verbatim>\<open>(df[w] >= t) and (t <= 7)\<close> with \<^verbatim>\<open>t = 1 & df[w]\<close>; \<^verbatim>\<open>and\<close> asks for the truth value
  of its left operand.
\<close>

definition weekday_filter :: "int list \<Rightarrow> py_error + bool list" where
  "weekday_filter days =
     (let t = map (\<lambda>d. 1 AND d) days;
          left = map2 (\<lambda>d x. x \<le> d) days t
      in case series_bool left of
           Inl e \<Rightarrow> Inl e
         | Inr b \<Rightarrow> Inr (if b then map (\<lambda>x. x \<le> 7) t else left))"

definition upload_block :: "(cell list \<Rightarrow> py_error + int list) \<Rightarrow> sheet \<Rightarrow> state \<Rightarrow> state \<times> notice" where
  "upload_block to_int_column df st =
     (if list_all (\<lambda>col. col \<in> set (columns df)) required_cols then
        (case to_int_column (map weekday (sheet_rows df)) of
           Inl e \<Rightarrow> (st, ImportFailed e)
         | Inr days \<Rightarrow>
             (let df1 = map2 (\<lambda>d r. r\<lparr>weekday := Number d\<rparr>) days (sheet_rows df)
              in case weekday_filter days of
                   Inl e \<Rightarrow> (st, ImportFailed e)
                 | Inr msk \<Rightarrow>
                     (let (a, st1) = alloc \<lparr>rows = select_rows msk df1, start_obj = None\<rparr> st
                      in (st1\<lparr>course_data := Some a\<rparr>, ImportSucceeded))))
      else (st, MissingColumns))"

section \<open>Deleting an adjustment\<close>

text \<open>\<^verbatim>\<open>list.pop(i)\<close>: a negative index counts from the end; out of range it raises.\<close>

definition list_pop :: "'a list \<Rightarrow> int \<Rightarrow> py_error + 'a list" where
  "list_pop xs i =
     (let n = int (length xs);
          j = (if i < 0 then i + n else i)
      in if 0 \<le> j \<and> j < n then Inr (take (nat j) xs @ drop (Suc (nat j)) xs)
         else Inl IndexError)"

text \<open>
  The list of adjustments is shown with one delete button per entry, the button of
  entry \<open>i\<close> having the key \<^verbatim>\<open>del_i\<close>. \<open>pressed i\<close> says whether the button with that key
  was clicked (what \<^verbatim>\<open>st.button\<close> returns for it). A click removes the entry and
  \<^verbatim>\<open>st.rerun()\<close> ends the run of the script, so the loop stops there.
\<close>

fun delete_scan :: "(nat \<Rightarrow> bool) \<Rightarrow> nat list \<Rightarrow> state \<Rightarrow> py_error + state" where
  "delete_scan pressed [] st = Inr st"
| "delete_scan pressed (i # is) st =
     (if pressed i then
        (case list_pop (adjust_courses st) (int i) of
           Inl e \<Rightarrow> Inl e
         | Inr l \<Rightarrow> Inr (st\<lparr>adjust_courses := l\<rparr>))
      else delete_scan pressed is st)"

definition delete_buttons :: "(nat \<Rightarrow> bool) \<Rightarrow> state \<Rightarrow> py_error + state" where
  "delete_buttons pressed st =
     (if adjust_courses st \<noteq> [] then delete_scan pressed [0..<length (adjust_courses st)] st
      else Inr st)"

section \<open>Auxiliary notions used to state the properties\<close>

text \<open>The decimal text of an integer, as \<^verbatim>\<open>str(n)\<close> writes it.\<close>

fun digits_of :: "nat \<Rightarrow> string" where
  "digits_of n =
     (if n < 10 then [char_of (48 + n)]
      else digits_of (n div 10) @ [char_of (48 + n mod 10)])"

declare digits_of.simps [simp del]

definition py_str :: "int \<Rightarrow> string" where
  "py_str i = (if i < 0 then CHR ''-'' # digits_of (nat (- i)) else digits_of (nat i))"

text \<open>
  What a sort behind \<^verbatim>\<open>sort_values\<close> must do whatever its kind: return the positions
  \<open>0, ..., n - 1\<close> in an order in which the keys ascend.
\<close>

definition argsort_ok :: "(time list \<Rightarrow> nat list) \<Rightarrow> bool" where
  "argsort_ok argsort =
     (\<forall>keys. mset (argsort keys) = mset [0..<length keys]
             \<and> sorted (map (\<lambda>i. keys ! i) (argsort keys)))"

text \<open>A stable sort of the positions: insertion sort.\<close>

definition stable_argsort :: "time list \<Rightarrow> nat list" where
  "stable_argsort keys = sort_key (\<lambda>i. keys ! i) [0..<length keys]"

text \<open>
  The condition of the reminder: the start of the row, on the day of \<open>now\<close>, lies between
  \<open>now\<close> and \<open>m\<close> minutes later.
\<close>

definition starts_within :: "datetime \<Rightarrow> int \<Rightarrow> row \<Rightarrow> bool" where
  "starts_within now m r =
     (let t = combine (date_of now) (parse_course_time (start_time r))
      in now \<le> t \<and> t \<le> now + m * minute_us)"

text \<open>
  A concrete session for the examples: the semester starts on Monday 2025-09-01, which is
  day 739494 after 0001-01-01.
\<close>

definition example_strptime_ymd :: "string \<Rightarrow> py_error + datetime" where
  "example_strptime_ymd s =
     (if s = ''2025-09-01'' then Inr (739494 * day_us) else Inl ValueError)"

definition example_state :: state where
  "example_state =
     \<lparr>course_data = None, remind_minutes = 10, adjust_courses = [], current_remind = None,
      semester_start = ''2025-09-01'', frames = []\<rparr>"

definition adjustment_a :: adjustment where
  "adjustment_a =
     \<lparr>adj_weekday = 1, adj_weeks = ''1-16'', orig_name = ''Math'', orig_start = ''08:00'',
      new_name = ''Physics'', new_start = ''07:15'', new_end = ''08:00'', new_place = ''B2'',
      new_teacher = ''Li''\<rparr>"

definition adjustment_b :: adjustment where
  "adjustment_b =
     \<lparr>adj_weekday = 1, adj_weeks = ''1-16'', orig_name = ''Bio'', orig_start = ''08:00'',
      new_name = ''Chem'', new_start = ''07:30'', new_end = ''08:15'', new_place = [],
      new_teacher = []\<rparr>"

text \<open>
  A second adjustment of the course the first one makes: its original start time and
  course name are the new ones of \<open>adjustment_a\<close>.
\<close>

definition adjustment_c :: adjustment where
  "adjustment_c =
     \<lparr>adj_weekday = 1, adj_weeks = ''1-8'', orig_name = ''Physics'', orig_start = ''07:15'',
      new_name = ''Chem'', new_start = ''09:00'', new_end = ''09:45'', new_place = ''D4'',
      new_teacher = ''Li''\<rparr>"

text \<open>
  The effective schedule in the words of the specification. An adjustment applies on a
  weekday and in a week when its weekday is that day and its week range matches the week.
  A row is the target of an adjustment when its start time and course name are the
  adjustment's original ones. Applying an adjustment replaces the five fields of every
  target row and, when there is none, appends a new row made of the adjustment's fields.
\<close>

definition adjustment_applies :: "int \<Rightarrow> int \<Rightarrow> adjustment \<Rightarrow> bool" where
  "adjustment_applies wd wk adjust =
     (adj_weekday adjust = wd \<and> check_week_range (Text (adj_weeks adjust)) wk = Inr True)"

definition key_matches :: "adjustment \<Rightarrow> row \<Rightarrow> bool" where
  "key_matches adjust r =
     (start_time r = Text (orig_start adjust) \<and> course_name r = Text (orig_name adjust))"

definition replace_or_append :: "adjustment \<Rightarrow> row list \<Rightarrow> row list" where
  "replace_or_append adjust rs =
     (if list_ex (key_matches adjust) rs
      then map (\<lambda>r. if key_matches adjust r then replace_with adjust r else r) rs
      else rs @ [new_course adjust])"

fun merged :: "int \<Rightarrow> int \<Rightarrow> adjustment list \<Rightarrow> row list \<Rightarrow> row list" where
  "merged wd wk [] rs = rs"
| "merged wd wk (adjust # rest) rs =
     merged wd wk rest (if adjustment_applies wd wk adjust then replace_or_append adjust rs else rs)"

definition selected :: "int \<Rightarrow> int \<Rightarrow> row list \<Rightarrow> row list" where
  "selected wd wk base =
     filter (\<lambda>r. weekday r = Number wd \<and> check_week_range (weeks r) wk = Inr True) base"

definition start_key :: "row \<Rightarrow> time" where
  "start_key r = parse_course_time (start_time r)"

text \<open>
  The merged table of a state at the two clock readings of \<^verbatim>\<open>get_today_courses\<close>: the
  selected rows of the base table \<open>cd\<close> with every adjustment of the session applied in turn.
\<close>

definition merged_today ::
  "(string \<Rightarrow> py_error + datetime) \<Rightarrow> datetime \<Rightarrow> datetime \<Rightarrow> state \<Rightarrow> addr \<Rightarrow> row list" where
  "merged_today strptime_ymd now1 now2 st cd =
     merged (isoweekday now1) (get_week_num strptime_ymd st now2) (adjust_courses st)
       (selected (isoweekday now1) (get_week_num strptime_ymd st now2) (rows (deref st cd)))"

text \<open>Rows with equal keys stand in the same order in \<open>ys\<close> as in \<open>xs\<close>.\<close>

definition ties_kept :: "('a \<Rightarrow> time) \<Rightarrow> 'a list \<Rightarrow> 'a list \<Rightarrow> bool" where
  "ties_kept key xs ys = (\<forall>k. filter (\<lambda>x. key x = k) ys = filter (\<lambda>x. key x = k) xs)"

text \<open>Two states agree on every field of the session; only the store may differ.\<close>

definition same_session :: "state \<Rightarrow> state \<Rightarrow> bool" where
  "same_session st st' =
     (course_data st' = course_data st \<and> remind_minutes st' = remind_minutes st
      \<and> adjust_courses st' = adjust_courses st \<and> current_remind st' = current_remind st
      \<and> semester_start st' = semester_start st)"

text \<open>
  The week-range column of the base table holds a number somewhere: the one case in which
  \<^verbatim>\<open>get_today_courses\<close> raises (the \<^verbatim>\<open>TypeError\<close> of \<^verbatim>\<open>check_week_range\<close>).
\<close>

definition weeks_has_number :: "state \<Rightarrow> bool" where
  "weeks_has_number st =
     (case course_data st of
        None \<Rightarrow> False
      | Some cd \<Rightarrow> list_ex (\<lambda>r. case weeks r of Number n \<Rightarrow> True | _ \<Rightarrow> False) (rows (deref st cd)))"

text \<open>The rows \<^verbatim>\<open>get_today_courses\<close> is to return before they are sorted.\<close>

definition unsorted_today ::
  "(string \<Rightarrow> py_error + datetime) \<Rightarrow> datetime \<Rightarrow> datetime \<Rightarrow> state \<Rightarrow> row list" where
  "unsorted_today strptime_ymd now1 now2 st =
     (case course_data st of
        None \<Rightarrow> []
      | Some cd \<Rightarrow> merged_today strptime_ymd now1 now2 st cd)"

text \<open>Every reference of the session points to an object of the store.\<close>

definition well_formed :: "state \<Rightarrow> bool" where
  "well_formed st = (case course_data st of None \<Rightarrow> True | Some cd \<Rightarrow> cd < length (frames st))"

text \<open>A loaded session for the examples: two courses on Monday, one on Tuesday.\<close>

definition row_math :: row where
  "row_math =
     \<lparr>weekday = Number 1, start_time = Text ''08:00'', end_time = Text ''08:45'',
      course_name = Text ''Math'', place = Text ''A1'', teacher = Text ''Wang'',
      weeks = Text ''1-16''\<rparr>"

definition row_art :: row where
  "row_art =
     \<lparr>weekday = Number 1, start_time = Text ''07:00'', end_time = Text ''07:45'',
      course_name = Text ''Art'', place = Text ''C3'', teacher = Text ''Zhao'',
      weeks = Missing\<rparr>"

definition row_pe :: row where
  "row_pe =
     \<lparr>weekday = Number 2, start_time = Text ''09:00'', end_time = Text ''09:45'',
      course_name = Text ''PE'', place = Text ''Gym'', teacher = Text ''Sun'',
      weeks = Text ''3,5,7''\<rparr>"

definition example_loaded :: state where
  "example_loaded =
     \<lparr>course_data = Some 0, remind_minutes = 10, adjust_courses = [adjustment_a, adjustment_b],
      current_remind = None, semester_start = ''2025-09-01'',
      frames = [\<lparr>rows = [row_math, row_art, row_pe], start_obj = None\<rparr>]\<rparr>"

text \<open>Monday 2025-09-01 at 07:25.\<close>

definition example_now :: datetime where
  "example_now = 739494 * day_us + 445 * minute_us"

text \<open>The rows \<^verbatim>\<open>get_today_courses\<close> is to return: those rows in the order of the sort.\<close>

definition today_rows ::
  "(time list \<Rightarrow> nat list) \<Rightarrow> (string \<Rightarrow> py_error + datetime) \<Rightarrow> datetime \<Rightarrow> datetime \<Rightarrow> state
     \<Rightarrow> row list" where
  "today_rows argsort strptime_ymd now1 now2 st =
     (case course_data st of
        None \<Rightarrow> []
      | Some cd \<Rightarrow>
          take_rows (argsort (map start_key (merged_today strptime_ymd now1 now2 st cd)))
            (merged_today strptime_ymd now1 now2 st cd))"

section \<open>The sort behind \<^verbatim>\<open>sort_values\<close>\<close>

text \<open>
  \<^verbatim>\<open>today_courses.sort_values("start_obj")\<close> names no \<^verbatim>\<open>kind\<close>, so the table library
  uses its default, \<^verbatim>\<open>quicksort\<close>, which it documents as not stable; it asks the array
  library for the positions in sorted order (\<^verbatim>\<open>argsort\<close>) and takes the rows in that
  order. The column holds \<^verbatim>\<open>datetime.time\<close> objects, for which the array library runs its
  generic quicksort on the positions, \<^verbatim>\<open>npy_aquicksort\<close>. Neither library is part of the
  repository. The functions below follow that routine as published: the median of the
  first, middle and last key as pivot, a partition by two scans that run towards each
  other, insertion sort for a segment of at most 17 positions, and heapsort for a segment
  that is reached after more than \<open>2 * floor (log2 n)\<close> partitions. \<open>v\<close> are the keys, \<open>a\<close>
  the positions being permuted, \<open>pl\<close> and \<open>pr\<close> the ends of a segment of \<open>a\<close>. Every loop
  runs at most \<open>length a\<close> times; the first argument of a looping function counts the
  rounds left.
\<close>

definition swap_at :: "nat \<Rightarrow> nat \<Rightarrow> nat list \<Rightarrow> nat list" where
  "swap_at i j a = a[i := a ! j, j := a ! i]"

text \<open>
  Insertion sort of the segment: position \<open>vi\<close> moves left from its place past every position
  with a greater key.
\<close>

fun ins_shift :: "time list \<Rightarrow> nat \<Rightarrow> nat \<Rightarrow> nat \<Rightarrow> nat list \<Rightarrow> nat list" where
  "ins_shift v vi pl 0 a = a[0 := vi]"
| "ins_shift v vi pl (Suc pk) a =
     (if pl < Suc pk \<and> v ! vi < v ! (a ! pk)
      then ins_shift v vi pl pk (a[Suc pk := a ! pk])
      else a[Suc pk := vi])"

definition insertion_seg :: "time list \<Rightarrow> nat \<Rightarrow> nat \<Rightarrow> nat list \<Rightarrow> nat list" where
  "insertion_seg v pl pr a = fold (\<lambda>ip b. ins_shift v (b ! ip) pl ip b) [Suc pl..<Suc pr] a"

text \<open>
  The scans of the partition: \<^verbatim>\<open>do ++pi; while (v[*pi] < vp)\<close> and
  \<^verbatim>\<open>do --pj; while (vp < v[*pj])\<close>. The pointers \<^verbatim>\<open>pi\<close> and \<^verbatim>\<open>pj\<close> of the routine are
  \<open>ip\<close> and \<open>jp\<close> here.
\<close>

fun scan_up :: "nat \<Rightarrow> time list \<Rightarrow> time \<Rightarrow> nat list \<Rightarrow> nat \<Rightarrow> nat" where
  "scan_up 0 v vp a ip = ip"
| "scan_up (Suc n) v vp a ip =
     (if v ! (a ! Suc ip) < vp then scan_up n v vp a (Suc ip) else Suc ip)"

fun scan_down :: "nat \<Rightarrow> time list \<Rightarrow> time \<Rightarrow> nat list \<Rightarrow> nat \<Rightarrow> nat" where
  "scan_down 0 v vp a jp = jp"
| "scan_down (Suc n) v vp a jp =
     (if vp < v ! (a ! (jp - 1)) then scan_down n v vp a (jp - 1) else jp - 1)"

fun part_loop :: "nat \<Rightarrow> time list \<Rightarrow> time \<Rightarrow> nat list \<Rightarrow> nat \<Rightarrow> nat \<Rightarrow> nat list \<times> nat" where
  "part_loop 0 v vp a ip jp = (a, ip)"
| "part_loop (Suc n) v vp a ip jp =
     (let ip' = scan_up (length a) v vp a ip;
          jp' = scan_down (length a) v vp a jp
      in if jp' \<le> ip' then (a, ip') else part_loop n v vp (swap_at ip' jp' a) ip' jp')"

definition partition_seg :: "time list \<Rightarrow> nat \<Rightarrow> nat \<Rightarrow> nat list \<Rightarrow> nat list \<times> nat" where
  "partition_seg v pl pr a =
     (let pm = pl + (pr - pl) div 2;
          a1 = (if v ! (a ! pm) < v ! (a ! pl) then swap_at pm pl a else a);
          a2 = (if v ! (a1 ! pr) < v ! (a1 ! pm) then swap_at pr pm a1 else a1);
          a3 = (if v ! (a2 ! pm) < v ! (a2 ! pl) then swap_at pm pl a2 else a2);
          vp = v ! (a3 ! pm);
          a4 = swap_at pm (pr - 1) a3;
          (a5, ip) = part_loop (length a4) v vp a4 pl (pr - 1)
      in (swap_at ip (pr - 1) a5, ip))"

text \<open>
  Heapsort of a segment \<open>s\<close>, which the routine indexes from 1: the entry \<open>k\<close> of the C
  code is \<open>s ! (k - 1)\<close>. \<open>sift\<close> lets \<open>tmp\<close> sink from entry \<open>i\<close> in the heap of the first
  \<open>n\<close> entries.
\<close>

fun sift :: "nat \<Rightarrow> time list \<Rightarrow> nat \<Rightarrow> nat \<Rightarrow> nat \<Rightarrow> nat list \<Rightarrow> nat list" where
  "sift 0 v tmp i n s = s[i - 1 := tmp]"
| "sift (Suc f) v tmp i n s =
     (if 2 * i \<le> n then
        (let j = (if 2 * i < n \<and> v ! (s ! (2 * i - 1)) < v ! (s ! (2 * i)) then 2 * i + 1
                  else 2 * i)
         in if v ! tmp < v ! (s ! (j - 1)) then sift f v tmp j n (s[i - 1 := s ! (j - 1)])
            else s[i - 1 := tmp])
      else s[i - 1 := tmp])"

definition heap_build :: "time list \<Rightarrow> nat list \<Rightarrow> nat list" where
  "heap_build v s =
     fold (\<lambda>l t. sift (length t) v (t ! (l - 1)) l (length t) t) (rev [1..<Suc (length s div 2)]) s"

definition heap_drain :: "time list \<Rightarrow> nat list \<Rightarrow> nat list" where
  "heap_drain v s =
     fold (\<lambda>n t. sift (length t) v (t ! (n - 1)) 1 (n - 1) (t[n - 1 := t ! 0]))
       (rev [2..<Suc (length s)]) s"

definition aheapsort_seg :: "time list \<Rightarrow> nat \<Rightarrow> nat \<Rightarrow> nat list \<Rightarrow> nat list" where
  "aheapsort_seg v pl pr a =
     take pl a @ heap_drain v (heap_build v (take (Suc pr - pl) (drop pl a))) @ drop (Suc pr) a"

text \<open>
  The main loop. After a partition the larger part goes on a stack and the smaller one is
  partitioned on; the depth left is tested when a part comes off the stack (\<open>popped\<close>) and
  at the start.
\<close>

fun aquicksort_seg ::
  "nat \<Rightarrow> bool \<Rightarrow> time list \<Rightarrow> int \<Rightarrow> nat \<Rightarrow> nat \<Rightarrow> nat list \<Rightarrow> nat list" where
  "aquicksort_seg 0 popped v cdepth pl pr a = a"
| "aquicksort_seg (Suc n) popped v cdepth pl pr a =
     (if popped \<and> cdepth < 0 then aheapsort_seg v pl pr a
      else if 16 < pr - pl then
        (let (a1, ip) = partition_seg v pl pr a;
             d = cdepth - 1
         in if ip - pl < pr - ip
            then aquicksort_seg n True v d (Suc ip) pr (aquicksort_seg n False v d pl (ip - 1) a1)
            else aquicksort_seg n True v d pl (ip - 1) (aquicksort_seg n False v d (Suc ip) pr a1))
      else insertion_seg v pl pr a)"

fun msb :: "nat \<Rightarrow> nat" where
  "msb n = (if n < 2 then 0 else Suc (msb (n div 2)))"

declare msb.simps [simp del]

definition npy_aquicksort :: "time list \<Rightarrow> nat list" where
  "npy_aquicksort v =
     (if v = [] then []
      else aquicksort_seg (Suc (length v)) True v (2 * int (msb (length v))) 0 (length v - 1)
             [0..<length v])"

text \<open>
  A session with eighteen courses on Monday that all start at 08:00, named by their
  position in the table, and no adjustment.
\<close>

definition ties_row :: "nat \<Rightarrow> row" where
  "ties_row i =
     \<lparr>weekday = Number 1, start_time = Text ''08:00'', end_time = Text ''08:45'',
      course_name = Text (digits_of i), place = Text ''A1'', teacher = Text ''Wang'',
      weeks = Text ''1-16''\<rparr>"

definition example_ties :: state where
  "example_ties =
     \<lparr>course_data = Some 0, remind_minutes = 10, adjust_courses = [], current_remind = None,
      semester_start = ''2025-09-01'',
      frames = [\<lparr>rows = map ties_row [0..<18], start_obj = None\<rparr>]\<rparr>"

text \<open>
  A stand-in for the conversion of the weekday column in the examples: a number stays, a
  text is read as an integer, everything else is 0.
\<close>

definition example_to_int_column :: "cell list \<Rightarrow> py_error + int list" where
  "example_to_int_column cs =
     Inr (map (\<lambda>c. case c of
                     Number n \<Rightarrow> n
                   | Text s \<Rightarrow> (case py_int s of Inr n \<Rightarrow> n | Inl e \<Rightarrow> 0)
                   | Missing \<Rightarrow> 0) cs)"

section \<open>Lemmas about splitting and parsing\<close>

lemma split_on_notin: "c \<notin> set b \<Longrightarrow> split_on c b = [b]"
  by (induction b) auto

lemma split_on_append: "c \<notin> set a \<Longrightarrow> split_on c (a @ c # b) = a # split_on c b"
  by (induction a) auto

lemma split_on_nonempty: "split_on c s \<noteq> []"
  by (induction s) (auto split: list.splits)

lemma split_on_single: "split_on c s = [b] \<Longrightarrow> s = b \<and> c \<notin> set b"
proof (induction s arbitrary: b)
  case Nil
  then show ?case by simp
next
  case (Cons y ys)
  show ?case
  proof (cases "y = c")
    case True
    with Cons.prems split_on_nonempty[of c ys] show ?thesis by simp
  next
    case False
    obtain p ps where sp: "split_on c ys = p # ps"
      using split_on_nonempty[of c ys] by (cases "split_on c ys") auto
    with False Cons.prems have "ps = []" "b = y # p" by auto
    with sp Cons.IH[of p] False show ?thesis by simp
  qed
qed

lemma split_on_pair: "split_on c s = [a, b] \<Longrightarrow> s = a @ c # b \<and> c \<notin> set a \<and> c \<notin> set b"
proof (induction s arbitrary: a)
  case Nil
  then show ?case by simp
next
  case (Cons y ys)
  show ?case
  proof (cases "y = c")
    case True
    with Cons.prems have "a = []" "split_on c ys = [b]" by auto
    with True split_on_single[of c ys b] show ?thesis by simp
  next
    case False
    obtain p ps where sp: "split_on c ys = p # ps"
      using split_on_nonempty[of c ys] by (cases "split_on c ys") auto
    with False Cons.prems have "ps = [b]" "a = y # p" by auto
    with sp Cons.IH[of p] False show ?thesis by simp
  qed
qed

lemma unpack2_Inr: "unpack2 rs = Inr (a, b) \<Longrightarrow> rs = [Inr a, Inr b]"
  by (induction rs rule: unpack2.induct) simp_all

lemma collect_map_Inr: "collect (map Inr xs) = Inr xs"
  by (induction xs) simp_all

lemma collect_Inr: "collect rs = Inr xs \<Longrightarrow> rs = map Inr xs"
proof (induction rs arbitrary: xs)
  case Nil
  then show ?case by simp
next
  case (Cons r rs)
  show ?case
  proof (cases r)
    case (Inl e)
    with Cons.prems show ?thesis by simp
  next
    case (Inr a)
    with Cons.prems obtain as where "collect rs = Inr as" "xs = a # as"
      by (auto split: sum.splits)
    with Cons.IH[of as] Inr show ?thesis by simp
  qed
qed

lemma collect_Inl: "collect rs = Inl e \<Longrightarrow> \<exists>r\<in>set rs. \<exists>e'. r = Inl e'"
proof (induction rs)
  case Nil
  then show ?case by simp
next
  case (Cons r rs)
  then show ?case by (cases r) (auto split: sum.splits)
qed

lemma interval_two:
  assumes "CHR ''-'' \<notin> set a" "CHR ''-'' \<notin> set b" "py_int a = Inr A" "py_int b = Inr B"
  shows "check_week_range (Text (a @ CHR ''-'' # b)) W = Inr (A \<le> W \<and> W \<le> B)"
proof -
  have "split_on CHR ''-'' (a @ CHR ''-'' # b) = [a, b]"
    using assms(1,2) by (simp add: split_on_append split_on_notin)
  with assms(3,4) show ?thesis by (simp add: check_week_range_def)
qed

lemma interval_bad:
  assumes "CHR ''-'' \<in> set s"
    and "\<not> (\<exists>a b A B. s = a @ CHR ''-'' # b \<and> CHR ''-'' \<notin> set a \<and> CHR ''-'' \<notin> set b
             \<and> py_int a = Inr A \<and> py_int b = Inr B)"
  shows "check_week_range (Text s) W = Inr False"
proof (cases "unpack2 (map py_int (split_on CHR ''-'' s))")
  case (Inl e)
  with assms(1) show ?thesis by (auto simp: check_week_range_def)
next
  case (Inr p)
  obtain A B where p: "p = (A, B)" by (cases p)
  with Inr have m: "map py_int (split_on CHR ''-'' s) = [Inr A, Inr B]"
    by (simp add: unpack2_Inr)
  then obtain a b where ab: "split_on CHR ''-'' s = [a, b]" "py_int a = Inr A" "py_int b = Inr B"
    by (auto simp: map_eq_Cons_conv)
  from split_on_pair[OF ab(1)] ab(2,3) assms(2) show ?thesis by blast
qed

lemma digit_val_char_of: "n < 10 \<Longrightarrow> digit_val (char_of (48 + n)) = Some n"
  by (simp add: digit_val_def Let_def)

lemma digit_val_not_us: "digit_val c = Some k \<Longrightarrow> c \<noteq> CHR ''_''"
  by (auto simp: digit_val_def Let_def split: if_splits)

lemma digits_acc_snoc:
  "digits_acc k xs = Some m \<Longrightarrow> digit_val d = Some j \<Longrightarrow> digits_acc k (xs @ [d]) = Some (10 * m + j)"
proof (induction k xs rule: digits_acc.induct)
  case (1 n)
  then show ?case by (simp add: digit_val_not_us)
next
  case (2 n c cs)
  show ?case
  proof (cases "c = CHR ''_''")
    case True
    with "2.prems"(1) obtain d0 ds k0 where cs: "cs = d0 # ds" and d0: "digit_val d0 = Some k0"
      and rest: "digits_acc (10 * n + k0) ds = Some m"
      by (auto split: list.splits option.splits)
    from "2.IH"(1)[OF True cs d0 rest "2.prems"(2)] True cs d0 show ?thesis by simp
  next
    case False
    with "2.prems"(1) obtain k0 where c: "digit_val c = Some k0"
      and rest: "digits_acc (10 * n + k0) cs = Some m"
      by (auto split: option.splits)
    from "2.IH"(2)[OF False c rest "2.prems"(2)] False c show ?thesis by simp
  qed
qed

lemma digits_value_snoc:
  "digits_value xs = Some m \<Longrightarrow> digit_val d = Some j \<Longrightarrow> digits_value (xs @ [d]) = Some (10 * m + j)"
  by (cases xs) (auto simp: digits_value_def digits_acc_snoc split: option.splits)

lemma digits_of_small: "n < 10 \<Longrightarrow> digits_of n = [char_of (48 + n)]"
  by (subst digits_of.simps) simp

lemma digits_of_big:
  "\<not> n < 10 \<Longrightarrow> digits_of n = digits_of (n div 10) @ [char_of (48 + n mod 10)]"
  by (subst digits_of.simps) simp

lemma digits_value_digits_of: "digits_value (digits_of n) = Some n"
proof (induction n rule: digits_of.induct)
  case (1 n)
  show ?case
  proof (cases "n < 10")
    case True
    then show ?thesis by (simp add: digits_of_small digits_value_def digit_val_char_of)
  next
    case False
    with 1 have "digits_value (digits_of (n div 10)) = Some (n div 10)" by simp
    from digits_value_snoc[OF this digit_val_char_of[of "n mod 10"]] False
    show ?thesis by (simp add: digits_of_big)
  qed
qed

lemma digits_of_chars: "c \<in> set (digits_of n) \<Longrightarrow> digit_val c \<noteq> None"
proof (induction n rule: digits_of.induct)
  case (1 n)
  show ?case
  proof (cases "n < 10")
    case True
    with 1(2) show ?thesis by (simp add: digits_of_small digit_val_char_of)
  next
    case False
    have "set (digits_of n) = set (digits_of (n div 10)) \<union> {char_of (48 + n mod 10)}"
      using False by (simp add: digits_of_big)
    with 1(2) have "c \<in> set (digits_of (n div 10)) \<or> c = char_of (48 + n mod 10)"
      by blast
    with 1(1)[OF False] show ?thesis
      using digit_val_char_of[of "n mod 10"] by auto
  qed
qed

lemma digits_of_nonempty: "digits_of n \<noteq> []"
  by (cases "n < 10") (simp_all add: digits_of_small digits_of_big)

lemma digit_not_space: "digit_val c \<noteq> None \<Longrightarrow> \<not> py_isspace c"
  by (auto simp: digit_val_def py_isspace_def Let_def split: if_splits)

lemma digit_not_sign: "digit_val c \<noteq> None \<Longrightarrow> c \<noteq> CHR ''-'' \<and> c \<noteq> CHR ''+'' \<and> c \<noteq> CHR '',''"
  by (auto simp: digit_val_def Let_def split: if_splits)

lemma strip_digits: "\<forall>c\<in>set s. digit_val c \<noteq> None \<Longrightarrow> strip s = s"
proof -
  assume a: "\<forall>c\<in>set s. digit_val c \<noteq> None"
  have d: "dropWhile py_isspace t = t" if "\<forall>c\<in>set t. digit_val c \<noteq> None" for t
    using that by (cases t) (auto simp: digit_not_space)
  from a have "dropWhile py_isspace s = s" by (rule d)
  moreover from a have "dropWhile py_isspace (rev s) = rev s" by (intro d) simp
  ultimately show ?thesis by (simp add: strip_def)
qed

lemma py_int_digits_of: "py_int (digits_of n) = Inr (int n)"
proof -
  have all: "\<forall>c\<in>set (digits_of n). digit_val c \<noteq> None"
    using digits_of_chars by blast
  then have s: "strip (digits_of n) = digits_of n" by (rule strip_digits)
  have "hd (digits_of n) \<in> set (digits_of n)" using digits_of_nonempty by simp
  with all have "digit_val (hd (digits_of n)) \<noteq> None" by blast
  then have h: "hd (digits_of n) \<noteq> CHR ''-''" "hd (digits_of n) \<noteq> CHR ''+''"
    using digit_not_sign by blast+
  show ?thesis by (simp add: py_int_def s h digits_value_digits_of)
qed

lemma digits_of_no_dash: "CHR ''-'' \<notin> set (digits_of n)"
  using digits_of_chars digit_not_sign by blast


lemma check_week_range_text_returns: "\<exists>b. check_week_range (Text s) W = Inr b"
proof (cases "s = []")
  case True
  then show ?thesis by (auto simp: check_week_range_def)
next
  case ne: False
  show ?thesis
  proof (cases "CHR ''-'' \<in> set s")
    case True
    with ne show ?thesis
      by (cases "unpack2 (map py_int (split_on CHR ''-'' s))")
         (auto simp: check_week_range_def)
  next
    case nd: False
    show ?thesis
    proof (cases "CHR '','' \<in> set s")
      case True
      with ne nd show ?thesis
        by (cases "collect (map py_int (split_on CHR '','' s))")
           (auto simp: check_week_range_def)
    next
      case False
      with ne nd show ?thesis
        by (cases "py_int s") (auto simp: check_week_range_def)
    qed
  qed
qed

lemma check_week_range_cases:
  "check_week_range c W = Inl TypeError \<and> (\<exists>n. c = Number n)
   \<or> (\<exists>b. check_week_range c W = Inr b) \<and> (\<forall>n. c \<noteq> Number n)"
proof (cases c)
  case Missing
  then show ?thesis by (auto simp: check_week_range_def)
next
  case (Text s)
  with check_week_range_text_returns[of s W] show ?thesis by simp
next
  case (Number n)
  then show ?thesis by (simp add: check_week_range_def)
qed

section \<open>Properties of the week-range matcher\<close>



lemma check_week_range_number: "check_week_range (Number n) W = Inl TypeError"
  by (simp add: check_week_range_def)

text \<open>
  C6. An empty or missing expression matches every week. An expression without \<open>-\<close> that
  contains a comma matches iff every piece between the commas parses as an integer and one
  of them is the week. Any other expression matches iff it parses as the week.
\<close>

theorem check_week_range_list_and_single:
  "check_week_range Missing W = Inr True
   \<and> check_week_range (Text []) W = Inr True
   \<and> (CHR ''-'' \<notin> set s \<longrightarrow> CHR '','' \<in> set s \<longrightarrow>
        check_week_range (Text s) W =
          Inr ((\<forall>p \<in> set (split_on CHR '','' s). \<exists>n. py_int p = Inr n)
               \<and> (\<exists>p \<in> set (split_on CHR '','' s). py_int p = Inr W)))
   \<and> (s \<noteq> [] \<longrightarrow> CHR ''-'' \<notin> set s \<longrightarrow> CHR '','' \<notin> set s \<longrightarrow>
        check_week_range (Text s) W = Inr (py_int s = Inr W))"
proof -
  have a: "check_week_range Missing W = Inr True" "check_week_range (Text []) W = Inr True"
    by (simp_all add: check_week_range_def)
  have b: "check_week_range (Text s) W =
          Inr ((\<forall>p \<in> set (split_on CHR '','' s). \<exists>n. py_int p = Inr n)
               \<and> (\<exists>p \<in> set (split_on CHR '','' s). py_int p = Inr W))"
    if nd: "CHR ''-'' \<notin> set s" and c: "CHR '','' \<in> set s"
  proof -
    from c have ne: "s \<noteq> []" by auto
    show ?thesis
    proof (cases "collect (map py_int (split_on CHR '','' s))")
      case (Inl e)
      from collect_Inl[OF Inl] obtain p e' where "p \<in> set (split_on CHR '','' s)" "py_int p = Inl e'"
        by auto
      then have "\<not> (\<forall>p \<in> set (split_on CHR '','' s). \<exists>n. py_int p = Inr n)" by force
      with Inl nd c ne show ?thesis by (simp add: check_week_range_def)
    next
      case (Inr ws)
      from collect_Inr[OF Inr] have m: "map py_int (split_on CHR '','' s) = map Inr ws" .
      have all: "\<forall>p \<in> set (split_on CHR '','' s). \<exists>n. py_int p = Inr n"
      proof
        fix p assume "p \<in> set (split_on CHR '','' s)"
        then have "py_int p \<in> set (map py_int (split_on CHR '','' s))" by simp
        with m show "\<exists>n. py_int p = Inr n" by auto
      qed
      have "Inr W \<in> set (map py_int (split_on CHR '','' s)) \<longleftrightarrow> W \<in> set ws"
        unfolding m by auto
      moreover have "(\<exists>p \<in> set (split_on CHR '','' s). py_int p = Inr W)
          \<longleftrightarrow> Inr W \<in> set (map py_int (split_on CHR '','' s))"
        by force
      ultimately have mem: "(\<exists>p \<in> set (split_on CHR '','' s). py_int p = Inr W) \<longleftrightarrow> W \<in> set ws"
        by simp
      from Inr nd c ne all mem show ?thesis by (simp add: check_week_range_def)
    qed
  qed
  have c: "check_week_range (Text s) W = Inr (py_int s = Inr W)"
    if "s \<noteq> []" "CHR ''-'' \<notin> set s" "CHR '','' \<notin> set s"
    using that by (cases "py_int s") (auto simp: check_week_range_def)
  from a b c show ?thesis by blast
qed

theorem check_week_range_list_and_single_witness:
  "check_week_range (Text ''3,5,7'') 5 = Inr True
   \<and> check_week_range (Text ''3,x,7'') 3 = Inr False
   \<and> check_week_range (Text ''8'') 8 = Inr True
   \<and> check_week_range (Text ''8'') 9 = Inr False"
proof -
  have s1: "split_on CHR '','' ''3,5,7'' = [''3'', ''5'', ''7'']"
    and s2: "split_on CHR '','' ''3,x,7'' = [''3'', ''x'', ''7'']" by simp_all
  have p: "py_int ''3'' = Inr 3" "py_int ''5'' = Inr 5" "py_int ''7'' = Inr 7"
    "py_int ''x'' = Inl ValueError" "py_int ''8'' = Inr 8"
    by code_simp+
  from check_week_range_list_and_single[of 5 "''3,5,7''"]
  have "check_week_range (Text ''3,5,7'') 5 = Inr True" by (simp add: s1 p)
  moreover from check_week_range_list_and_single[of 3 "''3,x,7''"]
  have "check_week_range (Text ''3,x,7'') 3 = Inr False" by (simp add: s2 p)
  moreover from check_week_range_list_and_single[of 8 "''8''"]
  have "check_week_range (Text ''8'') 8 = Inr True" by (simp add: p)
  moreover from check_week_range_list_and_single[of 9 "''8''"]
  have "check_week_range (Text ''8'') 9 = Inr False" by (simp add: p)
  ultimately show ?thesis by blast
qed

text \<open>
  C5, as stated, reads "A-B" for all integers A and B. The expression is split at every
  \<open>-\<close>, so the text of a negative bound gives three pieces and never matches: with
  A = -3, B = 5 and week 0 the claim asks for a match and the matcher says no.
\<close>

theorem check_week_range_interval_counterexample:
  "py_int (py_str (- 3)) = Inr (- 3) \<and> py_int (py_str 5) = Inr 5
   \<and> check_week_range (Text (py_str (- 3) @ CHR ''-'' # py_str 5)) 0 \<noteq> Inr ((- 3 :: int) \<le> 0 \<and> (0 :: int) \<le> 5)"
  by code_simp

text \<open>
  C5, amended. For texts \<open>a\<close> and \<open>b\<close> without \<open>-\<close> that parse as the integers A and B (so
  for the decimal texts of all natural numbers), the expression \<open>a-b\<close> matches week W iff
  A \<le> W \<le> B, hence never when B < A; and an expression with a \<open>-\<close> that is not of this
  shape matches no week.
\<close>

theorem check_week_range_interval:
  "(CHR ''-'' \<notin> set a \<longrightarrow> CHR ''-'' \<notin> set b \<longrightarrow> py_int a = Inr A \<longrightarrow> py_int b = Inr B \<longrightarrow>
      check_week_range (Text (a @ CHR ''-'' # b)) W = Inr (A \<le> W \<and> W \<le> B)
      \<and> (B < A \<longrightarrow> check_week_range (Text (a @ CHR ''-'' # b)) W = Inr False))
   \<and> check_week_range (Text (py_str (int m) @ CHR ''-'' # py_str (int n))) W
        = Inr (int m \<le> W \<and> W \<le> int n)
   \<and> (CHR ''-'' \<in> set s \<longrightarrow>
        \<not> (\<exists>a b A B. s = a @ CHR ''-'' # b \<and> CHR ''-'' \<notin> set a \<and> CHR ''-'' \<notin> set b
              \<and> py_int a = Inr A \<and> py_int b = Inr B) \<longrightarrow>
        check_week_range (Text s) W = Inr False)"
proof -
  have one: "check_week_range (Text (a @ CHR ''-'' # b)) W = Inr (A \<le> W \<and> W \<le> B)
      \<and> (B < A \<longrightarrow> check_week_range (Text (a @ CHR ''-'' # b)) W = Inr False)"
    if "CHR ''-'' \<notin> set a" "CHR ''-'' \<notin> set b" "py_int a = Inr A" "py_int b = Inr B"
    using interval_two[OF that, of W] by auto
  have two: "check_week_range (Text (py_str (int m) @ CHR ''-'' # py_str (int n))) W
        = Inr (int m \<le> W \<and> W \<le> int n)"
    using interval_two[OF digits_of_no_dash digits_of_no_dash py_int_digits_of py_int_digits_of, of m n W]
    by (simp add: py_str_def)
  from one two interval_bad[of s W] show ?thesis by blast
qed

theorem check_week_range_interval_witness:
  "check_week_range (Text ''1-16'') 3 = Inr True
   \<and> check_week_range (Text ''1-16'') 17 = Inr False
   \<and> check_week_range (Text ''10-2'') 5 = Inr False
   \<and> check_week_range (Text ''1-x'') 1 = Inr False"
proof -
  have p: "py_int ''1'' = Inr 1" "py_int ''16'' = Inr 16" "py_int ''10'' = Inr 10" "py_int ''2'' = Inr 2"
    "py_int ''x'' = Inl ValueError"
    by code_simp+
  have nd: "CHR ''-'' \<notin> set ''1''" "CHR ''-'' \<notin> set ''16''" "CHR ''-'' \<notin> set ''10''" "CHR ''-'' \<notin> set ''2''"
    by simp_all
  from check_week_range_interval[of "''1''" "''16''" 1 16 3] nd p
  have "check_week_range (Text ''1-16'') 3 = Inr True" by simp
  moreover from check_week_range_interval[of "''1''" "''16''" 1 16 17] nd p
  have "check_week_range (Text ''1-16'') 17 = Inr False" by simp
  moreover from check_week_range_interval[of "''10''" "''2''" 10 2 5] nd p
  have "check_week_range (Text ''10-2'') 5 = Inr False" by simp
  moreover have "check_week_range (Text ''1-x'') 1 = Inr False"
  proof -
    have "\<not> (\<exists>a b A B. ''1-x'' = a @ CHR ''-'' # b \<and> CHR ''-'' \<notin> set a \<and> CHR ''-'' \<notin> set b
              \<and> py_int a = Inr A \<and> py_int b = Inr B)"
    proof
      assume "\<exists>a b A B. ''1-x'' = a @ CHR ''-'' # b \<and> CHR ''-'' \<notin> set a \<and> CHR ''-'' \<notin> set b
              \<and> py_int a = Inr A \<and> py_int b = Inr B"
      then obtain a b A B where ab: "''1-x'' = a @ CHR ''-'' # b" "CHR ''-'' \<notin> set a" "CHR ''-'' \<notin> set b"
        and pb: "py_int b = Inr B" by blast
      from ab have "split_on CHR ''-'' ''1-x'' = [a, b]"
        by (simp add: split_on_append split_on_notin)
      then have "b = ''x''" by simp
      with pb p show False by simp
    qed
    with check_week_range_interval[where s = "''1-x''" and W = 1] show ?thesis by simp
  qed
  ultimately show ?thesis by blast
qed


section \<open>Properties of the week number\<close>

lemma get_week_num_parsed:
  "strptime_ymd (semester_start st) = Inr start \<Longrightarrow>
     get_week_num strptime_ymd st now =
       (if now < start then 0 else (now - start) div day_us div 7 + 1)"
  by (simp add: get_week_num_def timedelta_days_def)

lemma floor_days_weeks:
  "\<lfloor>real_of_int x / real_of_int day_us / 7\<rfloor> = x div day_us div 7"
proof -
  have "real_of_int x / real_of_int day_us / 7 = real_of_int x / real_of_int (day_us * 7)"
    by simp
  then have "\<lfloor>real_of_int x / real_of_int day_us / 7\<rfloor> = x div (day_us * 7)"
    by (simp only: floor_divide_of_int_eq)
  also have "\<dots> = x div day_us div 7"
    by (rule zdiv_zmult2_eq) simp
  finally show ?thesis .
qed

text \<open>
  C7. When the semester start parses, the week is 0 for every \<open>now\<close> before the start and
  otherwise the floor of the days since the start divided by 7, plus 1 (the same with the
  whole days of the difference, as the code computes it); so it is 1 from the start up to,
  not including, seven days later.
\<close>

theorem get_week_num_weeks:
  "strptime_ymd (semester_start st) = Inr start \<Longrightarrow>
     (now < start \<longrightarrow> get_week_num strptime_ymd st now = 0)
     \<and> (start \<le> now \<longrightarrow>
          get_week_num strptime_ymd st now
            = \<lfloor>real_of_int (now - start) / real_of_int day_us / 7\<rfloor> + 1
          \<and> get_week_num strptime_ymd st now = timedelta_days (now - start) div 7 + 1)
     \<and> (start \<le> now \<longrightarrow> now < start + 7 * day_us \<longrightarrow> get_week_num strptime_ymd st now = 1)"
proof -
  assume p: "strptime_ymd (semester_start st) = Inr start"
  have a: "get_week_num strptime_ymd st now = 0" if "now < start"
    using that by (simp add: get_week_num_parsed[where strptime_ymd = strptime_ymd and st = st, OF p])
  have b: "get_week_num strptime_ymd st now = (now - start) div day_us div 7 + 1" if "start \<le> now"
    using that by (simp add: get_week_num_parsed[where strptime_ymd = strptime_ymd and st = st, OF p])
  have c: "get_week_num strptime_ymd st now = 1" if "start \<le> now" "now < start + 7 * day_us"
  proof -
    from that have "0 \<le> now - start" "now - start < day_us * 7" by simp_all
    then have "(now - start) div (day_us * 7) = 0" by simp
    moreover have "(now - start) div (day_us * 7) = (now - start) div day_us div 7"
      by (rule zdiv_zmult2_eq) simp
    ultimately show ?thesis using b[OF that(1)] by simp
  qed
  show ?thesis
    unfolding floor_days_weeks timedelta_days_def using a b c by blast
qed

theorem get_week_num_weeks_witness:
  "get_week_num example_strptime_ymd example_state (739493 * day_us) = 0
   \<and> get_week_num example_strptime_ymd example_state (739494 * day_us + 8 * 60 * minute_us) = 1
   \<and> get_week_num example_strptime_ymd example_state (739494 * day_us + 15 * day_us) = 3"
proof -
  have p: "example_strptime_ymd (semester_start example_state) = Inr (739494 * day_us)"
    by (simp add: example_strptime_ymd_def example_state_def)
  have d: "0 < day_us" by (simp add: day_us_def)
  from get_week_num_weeks[where strptime_ymd = example_strptime_ymd and st = example_state, OF p, of "739493 * day_us"] d
  have "get_week_num example_strptime_ymd example_state (739493 * day_us) = 0" by simp
  moreover from get_week_num_weeks[where strptime_ymd = example_strptime_ymd and st = example_state, OF p, of "739494 * day_us + 8 * 60 * minute_us"]
  have "get_week_num example_strptime_ymd example_state (739494 * day_us + 8 * 60 * minute_us) = 1"
    by (simp add: day_us_def minute_us_def)
  moreover from get_week_num_weeks[where strptime_ymd = example_strptime_ymd and st = example_state, OF p, of "739494 * day_us + 15 * day_us"]
  have "get_week_num example_strptime_ymd example_state (739494 * day_us + 15 * day_us) = 3"
    by (simp add: day_us_def timedelta_days_def)
  ultimately show ?thesis by blast
qed

section \<open>Properties of deleting an adjustment\<close>

lemma list_pop_nat:
  "list_pop xs (int i) = (if i < length xs then Inr (take i xs @ drop (Suc i) xs) else Inl IndexError)"
  by (simp add: list_pop_def Let_def)

lemma delete_scan_index:
  "\<forall>i \<in> set js. i < length (adjust_courses st) \<Longrightarrow>
     delete_scan (\<lambda>i. int i = k) js st =
       Inr (if \<exists>i \<in> set js. int i = k
            then st\<lparr>adjust_courses := take (nat k) (adjust_courses st) @ drop (Suc (nat k)) (adjust_courses st)\<rparr>
            else st)"
proof (induction js)
  case Nil
  then show ?case by simp
next
  case (Cons j js)
  show ?case
  proof (cases "int j = k")
    case True
    with Cons.prems show ?thesis by (auto simp: list_pop_nat)
  next
    case False
    with Cons show ?thesis by simp
  qed
qed

lemma list_pop_out_of_range: "list_pop [x, y] 5 = Inl IndexError"
  by (simp add: list_pop_def)

text \<open>
  C8. Removing the adjustment at index \<open>k\<close> is a click on the button with key \<^verbatim>\<open>del_k\<close>.
  For an index out of bounds there is no such button: nothing is raised and the list stays
  as it is. For an index in bounds exactly the entry at that position is removed.
\<close>

theorem delete_buttons_index:
  "delete_buttons (\<lambda>i. int i = k) st =
     Inr (if 0 \<le> k \<and> k < int (length (adjust_courses st))
          then st\<lparr>adjust_courses :=
                    take (nat k) (adjust_courses st) @ drop (Suc (nat k)) (adjust_courses st)\<rparr>
          else st)"
proof (cases "adjust_courses st = []")
  case True
  then show ?thesis by (simp add: delete_buttons_def)
next
  case False
  have "(\<exists>i \<in> set [0..<length (adjust_courses st)]. int i = k)
          \<longleftrightarrow> 0 \<le> k \<and> k < int (length (adjust_courses st))"
  proof
    assume "\<exists>i \<in> set [0..<length (adjust_courses st)]. int i = k"
    then show "0 \<le> k \<and> k < int (length (adjust_courses st))" by auto
  next
    assume "0 \<le> k \<and> k < int (length (adjust_courses st))"
    then have "nat k \<in> set [0..<length (adjust_courses st)]" "int (nat k) = k" by auto
    then show "\<exists>i \<in> set [0..<length (adjust_courses st)]. int i = k" by blast
  qed
  with False delete_scan_index[of "[0..<length (adjust_courses st)]" st k]
  show ?thesis by (simp add: delete_buttons_def)
qed

theorem delete_buttons_index_witness:
  "delete_buttons (\<lambda>i. int i = 5) (example_state\<lparr>adjust_courses := [adjustment_a, adjustment_b]\<rparr>)
     = Inr (example_state\<lparr>adjust_courses := [adjustment_a, adjustment_b]\<rparr>)
   \<and> delete_buttons (\<lambda>i. int i = - 1) (example_state\<lparr>adjust_courses := [adjustment_a, adjustment_b]\<rparr>)
     = Inr (example_state\<lparr>adjust_courses := [adjustment_a, adjustment_b]\<rparr>)
   \<and> delete_buttons (\<lambda>i. int i = 1) (example_state\<lparr>adjust_courses := [adjustment_a, adjustment_b]\<rparr>)
     = Inr (example_state\<lparr>adjust_courses := [adjustment_a]\<rparr>)"
  using delete_buttons_index[of 5 "example_state\<lparr>adjust_courses := [adjustment_a, adjustment_b]\<rparr>"]
    delete_buttons_index[of "- 1" "example_state\<lparr>adjust_courses := [adjustment_a, adjustment_b]\<rparr>"]
    delete_buttons_index[of 1 "example_state\<lparr>adjust_courses := [adjustment_a, adjustment_b]\<rparr>"]
  by simp

section \<open>The merge loop and the table returned\<close>

lemma select_rows_map: "select_rows (map P xs) xs = filter P xs"
  by (induction xs) (simp_all add: select_rows_def)

lemma loc_assign_map:
  "loc_assign (map P rs) adjust rs = map (\<lambda>r. if P r then replace_with adjust r else r) rs"
  by (induction rs) (simp_all add: loc_assign_def)

lemma list_ex_id_map: "list_ex id (map P rs) = list_ex P rs"
  by (induction rs) simp_all

lemma merge_step_skip:
  "\<not> adjustment_applies wd wk adjust \<Longrightarrow>
     merge_adjusts wd wk (adjust # rest) tc st = merge_adjusts wd wk rest tc st"
proof -
  assume na: "\<not> adjustment_applies wd wk adjust"
  obtain b where b: "check_week_range (Text (adj_weeks adjust)) wk = Inr b"
    using check_week_range_text_returns by blast
  with na show ?thesis by (auto simp: adjustment_applies_def)
qed

lemma merge_step_replace:
  assumes "adjustment_applies wd wk adjust" "list_ex (key_matches adjust) (rows (deref st tc))"
  shows "merge_adjusts wd wk (adjust # rest) tc st =
           merge_adjusts wd wk rest tc
             (put tc ((deref st tc)\<lparr>rows := replace_or_append adjust (rows (deref st tc))\<rparr>) st)"
proof -
  have m: "key_matches adjust
             = (\<lambda>r. start_time r = Text (orig_start adjust) \<and> course_name r = Text (orig_name adjust))"
    by (simp add: key_matches_def fun_eq_iff)
  from assms show ?thesis
    unfolding m
    by (simp add: adjustment_applies_def Let_def m list_ex_id_map loc_assign_map
        replace_or_append_def)
qed

lemma merge_step_append:
  assumes "adjustment_applies wd wk adjust" "\<not> list_ex (key_matches adjust) (rows (deref st tc))"
    and "tc < length (frames st)"
  shows "merge_adjusts wd wk (adjust # rest) tc st =
           merge_adjusts wd wk rest (Suc (length (frames st)))
             (st\<lparr>frames := frames st
                    @ [\<lparr>rows = [new_course adjust], start_obj = None\<rparr>,
                       \<lparr>rows = replace_or_append adjust (rows (deref st tc)), start_obj = None\<rparr>]\<rparr>)"
proof -
  have m: "key_matches adjust
             = (\<lambda>r. start_time r = Text (orig_start adjust) \<and> course_name r = Text (orig_name adjust))"
    by (simp add: key_matches_def fun_eq_iff)
  from assms show ?thesis
    unfolding m
    by (simp add: adjustment_applies_def Let_def m list_ex_id_map alloc_def deref_def
        replace_or_append_def nth_append)
qed

declare merge_adjusts.simps(2) [simp del]

lemma merge_adjusts_spec:
  "tc < length (frames st) \<Longrightarrow>
   \<exists>tc' st'. merge_adjusts wd wk adjs tc st = Inr (tc', st')
      \<and> tc' < length (frames st')
      \<and> rows (deref st' tc') = merged wd wk adjs (rows (deref st tc))
      \<and> length (frames st) \<le> length (frames st')
      \<and> (\<forall>a < length (frames st). a \<noteq> tc \<longrightarrow> frames st' ! a = frames st ! a)
      \<and> (tc' = tc \<or> length (frames st) \<le> tc')
      \<and> same_session st st'"
proof (induction adjs arbitrary: tc st)
  case Nil
  then show ?case by (simp add: same_session_def)
next
  case (Cons adjust rest)
  show ?case
  proof (cases "adjustment_applies wd wk adjust")
    case False
    with Cons.IH[OF Cons.prems] show ?thesis by (simp add: merge_step_skip)
  next
    case ap: True
    show ?thesis
    proof (cases "list_ex (key_matches adjust) (rows (deref st tc))")
      case True
      define st1 where
        "st1 = put tc ((deref st tc)\<lparr>rows := replace_or_append adjust (rows (deref st tc))\<rparr>) st"
      have l1: "length (frames st1) = length (frames st)"
        and r1: "rows (deref st1 tc) = replace_or_append adjust (rows (deref st tc))"
        and o1: "\<forall>a < length (frames st). a \<noteq> tc \<longrightarrow> frames st1 ! a = frames st ! a"
        and f1: "same_session st st1"
        using Cons.prems by (simp_all add: st1_def put_def deref_def same_session_def)
      from Cons.prems l1 have "tc < length (frames st1)" by simp
      from Cons.IH[OF this] obtain tc' st' where
        res: "merge_adjusts wd wk rest tc st1 = Inr (tc', st')"
        and b: "tc' < length (frames st')"
        and r: "rows (deref st' tc') = merged wd wk rest (rows (deref st1 tc))"
        and l: "length (frames st1) \<le> length (frames st')"
        and o: "\<forall>a < length (frames st1). a \<noteq> tc \<longrightarrow> frames st' ! a = frames st1 ! a"
        and t: "tc' = tc \<or> length (frames st1) \<le> tc'"
        and f: "same_session st1 st'"
        by blast
      have "merge_adjusts wd wk (adjust # rest) tc st = Inr (tc', st')"
        using merge_step_replace[OF ap True] res by (simp add: st1_def)
      moreover have "rows (deref st' tc') = merged wd wk (adjust # rest) (rows (deref st tc))"
        using r r1 ap by simp
      moreover have "same_session st st'"
        using f f1 by (simp add: same_session_def)
      ultimately show ?thesis using b l o t l1 o1 by auto
    next
      case False
      define st2 where
        "st2 = st\<lparr>frames := frames st
                    @ [\<lparr>rows = [new_course adjust], start_obj = None\<rparr>,
                       \<lparr>rows = replace_or_append adjust (rows (deref st tc)), start_obj = None\<rparr>]\<rparr>"
      define tc2 where "tc2 = Suc (length (frames st))"
      have l2: "length (frames st2) = Suc (Suc (length (frames st)))"
        and r2: "rows (deref st2 tc2) = replace_or_append adjust (rows (deref st tc))"
        and o2: "\<forall>a < length (frames st). frames st2 ! a = frames st ! a"
        and f2: "same_session st st2"
        by (simp_all add: st2_def tc2_def deref_def nth_append same_session_def)
      from l2 have "tc2 < length (frames st2)" by (simp add: tc2_def)
      from Cons.IH[OF this] obtain tc' st' where
        res: "merge_adjusts wd wk rest tc2 st2 = Inr (tc', st')"
        and b: "tc' < length (frames st')"
        and r: "rows (deref st' tc') = merged wd wk rest (rows (deref st2 tc2))"
        and l: "length (frames st2) \<le> length (frames st')"
        and o: "\<forall>a < length (frames st2). a \<noteq> tc2 \<longrightarrow> frames st' ! a = frames st2 ! a"
        and t: "tc' = tc2 \<or> length (frames st2) \<le> tc'"
        and f: "same_session st2 st'"
        by blast
      have "merge_adjusts wd wk (adjust # rest) tc st = Inr (tc', st')"
        using merge_step_append[OF ap False Cons.prems] res by (simp add: st2_def tc2_def)
      moreover have "rows (deref st' tc') = merged wd wk (adjust # rest) (rows (deref st tc))"
        using r r2 ap by simp
      moreover have "same_session st st'"
        using f f2 by (simp add: same_session_def)
      moreover have "\<forall>a < length (frames st). a \<noteq> tc \<longrightarrow> frames st' ! a = frames st ! a"
        using o o2 l2 by (simp add: tc2_def)
      moreover have "length (frames st) \<le> tc'" using t l2 by (auto simp: tc2_def)
      ultimately show ?thesis using b l l2 by auto
    qed
  qed
qed

lemma collect_all_Inr:
  "\<forall>x \<in> set xs. \<exists>b. f x = Inr b \<Longrightarrow> collect (map f xs) = Inr (map (\<lambda>x. f x = Inr True) xs)"
proof (induction xs)
  case Nil
  then show ?case by simp
next
  case (Cons x xs)
  then obtain b where "f x = Inr b" by auto
  with Cons show ?case by simp
qed

lemma collect_some_Inl:
  "\<forall>x \<in> set xs. f x = Inl e \<or> (\<exists>b. f x = Inr b) \<Longrightarrow> \<exists>x \<in> set xs. f x = Inl e \<Longrightarrow>
     collect (map f xs) = Inl e"
proof (induction xs)
  case Nil
  then show ?case by simp
next
  case (Cons x xs)
  show ?case
  proof (cases "f x")
    case (Inl e')
    with Cons.prems(1) have "e' = e" by auto
    with Inl show ?thesis by simp
  next
    case (Inr b)
    with Cons.prems have "\<exists>x \<in> set xs. f x = Inl e" by auto
    with Cons.IH Cons.prems(1) Inr show ?thesis by simp
  qed
qed

lemma map2_conj_map: "map2 (\<and>) (map P xs) (map Q xs) = map (\<lambda>x. P x \<and> Q x) xs"
  by (induction xs) simp_all

lemma deref_append2: "deref (s\<lparr>frames := frames s @ [A, B]\<rparr>) (Suc (length (frames s))) = B"
  by (simp add: deref_def nth_append)

lemma get_today_courses_none:
  "course_data st = None \<Longrightarrow>
     get_today_courses argsort strptime_ymd now1 now2 st
       = Inr (length (frames st), st\<lparr>frames := frames st @ [\<lparr>rows = [], start_obj = None\<rparr>]\<rparr>)"
  by (simp add: get_today_courses_def alloc_def)

lemma get_today_courses_raises:
  assumes "course_data st = Some cd" "\<exists>r \<in> set (rows (deref st cd)). \<exists>n. weeks r = Number n"
  shows "get_today_courses argsort strptime_ymd now1 now2 st = Inl TypeError"
proof -
  let ?wk = "get_week_num strptime_ymd st now2"
  let ?f = "\<lambda>r. check_week_range (weeks r) ?wk"
  have a: "\<forall>r \<in> set (rows (deref st cd)). ?f r = Inl TypeError \<or> (\<exists>b. ?f r = Inr b)"
    using check_week_range_cases by blast
  from assms(2) obtain r n where r: "r \<in> set (rows (deref st cd))" "weeks r = Number n"
    by blast
  then have "?f r = Inl TypeError" by (simp add: check_week_range_def)
  with r(1) have b: "\<exists>r \<in> set (rows (deref st cd)). ?f r = Inl TypeError"
    by blast
  from collect_some_Inl[OF a b] assms(1) show ?thesis
    by (simp add: get_today_courses_def Let_def)
qed

lemma get_today_courses_spec:
  assumes cd: "course_data st = Some cd"
    and nonum: "\<forall>r \<in> set (rows (deref st cd)). \<forall>n. weeks r \<noteq> Number n"
  shows "\<exists>res st'. get_today_courses argsort strptime_ymd now1 now2 st = Inr (res, st')
      \<and> res < length (frames st')
      \<and> rows (deref st' res)
          = take_rows (argsort (map start_key (merged_today strptime_ymd now1 now2 st cd)))
              (merged_today strptime_ymd now1 now2 st cd)
      \<and> take (length (frames st)) (frames st') = frames st
      \<and> same_session st st'"
proof -
  let ?wd = "isoweekday now1"
  let ?wk = "get_week_num strptime_ymd st now2"
  let ?base = "rows (deref st cd)"
  let ?f = "\<lambda>r. check_week_range (weeks r) ?wk"
  let ?sel = "selected ?wd ?wk ?base"
  let ?F = "\<lparr>rows = ?sel, start_obj = None\<rparr>"
  let ?n = "length (frames st)"
  define st2 where "st2 = st\<lparr>frames := frames st @ [?F, ?F]\<rparr>"
  have "\<forall>r \<in> set ?base. \<exists>b. ?f r = Inr b"
    using nonum check_week_range_cases by blast
  from collect_all_Inr[OF this]
  have col: "collect (map ?f ?base) = Inr (map (\<lambda>r. ?f r = Inr True) ?base)" .
  have sel: "select_rows (map2 (\<and>) (map (\<lambda>r. weekday r = Number ?wd) ?base)
                (map (\<lambda>r. ?f r = Inr True) ?base)) ?base = ?sel"
    by (simp add: map2_conj_map select_rows_map selected_def)
  have l2: "length (frames st2) = Suc (Suc ?n)"
    and r2: "rows (deref st2 (Suc ?n)) = ?sel"
    and o2: "\<forall>a < ?n. frames st2 ! a = frames st ! a"
    and s2: "same_session st st2"
    and a2: "adjust_courses st2 = adjust_courses st"
    by (simp_all add: st2_def deref_def nth_append same_session_def)
  from l2 have "Suc ?n < length (frames st2)" by simp
  from merge_adjusts_spec[OF this, of ?wd ?wk "adjust_courses st"] obtain tc' st3 where
    res: "merge_adjusts ?wd ?wk (adjust_courses st) (Suc ?n) st2 = Inr (tc', st3)"
    and b3: "tc' < length (frames st3)"
    and r3: "rows (deref st3 tc') = merged ?wd ?wk (adjust_courses st) (rows (deref st2 (Suc ?n)))"
    and l3: "length (frames st2) \<le> length (frames st3)"
    and o3: "\<forall>a < length (frames st2). a \<noteq> Suc ?n \<longrightarrow> frames st3 ! a = frames st2 ! a"
    and t3: "tc' = Suc ?n \<or> length (frames st2) \<le> tc'"
    and s3: "same_session st2 st3"
    by blast
  let ?M = "merged_today strptime_ymd now1 now2 st cd"
  have M: "rows (deref st3 tc') = ?M"
    using r3 r2 by (simp add: merged_today_def)
  define keys where "keys = map (\<lambda>r. parse_course_time (start_time r)) (rows (deref st3 tc'))"
  define st4 where "st4 = put tc' ((deref st3 tc')\<lparr>start_obj := Some keys\<rparr>) st3"
  define G where "G = \<lparr>rows = take_rows (argsort keys) (rows (deref st4 tc')),
                        start_obj = Some (take_rows (argsort keys) keys)\<rparr>"
  define st6 where "st6 = st4\<lparr>frames := frames st4 @ [G, G\<lparr>start_obj := None\<rparr>]\<rparr>"
  have g: "get_today_courses argsort strptime_ymd now1 now2 st
             = Inr (Suc (length (frames st4)), st6)"
    using cd col sel res a2
    by (simp add: get_today_courses_def Let_def alloc_def deref_def st2_def nth_append
        st6_def G_def st4_def keys_def)
  have keys: "keys = map start_key ?M"
    by (simp add: keys_def M start_key_def)
  have r4: "rows (deref st4 tc') = ?M"
    using b3 M by (simp add: st4_def put_def deref_def)
  have l4: "length (frames st4) = length (frames st3)"
    by (simp add: st4_def put_def)
  have rows6: "rows (deref st6 (Suc (length (frames st4))))
                 = take_rows (argsort (map start_key ?M)) ?M"
    by (simp add: st6_def deref_append2 G_def r4 keys)
  have ge: "Suc ?n \<le> tc'" using t3 l2 by auto
  have old: "frames st6 ! a = frames st ! a" if "a < ?n" for a
  proof -
    from that ge have ne: "a \<noteq> tc'" and "a < length (frames st2)" "a \<noteq> Suc ?n"
      using l2 by simp_all
    with o3 o2 that have "frames st3 ! a = frames st ! a" by simp
    moreover from that l3 l2 have "a < length (frames st3)" by simp
    ultimately show ?thesis using ne by (simp add: st6_def st4_def put_def nth_append)
  qed
  have len6: "?n \<le> length (frames st6)" using l3 l2 l4 by (simp add: st6_def)
  have tk: "take ?n (frames st6) = frames st"
  proof (rule nth_equalityI)
    show "length (take ?n (frames st6)) = length (frames st)" using len6 by simp
  next
    fix i assume "i < length (take ?n (frames st6))"
    with len6 have "i < ?n" by simp
    with old show "take ?n (frames st6) ! i = frames st ! i" by simp
  qed
  have ss: "same_session st st6"
    using s2 s3 by (simp add: same_session_def st6_def st4_def put_def)
  have lt: "Suc (length (frames st4)) < length (frames st6)" by (simp add: st6_def)
  from g lt rows6 tk ss show ?thesis by blast
qed

lemma weeks_has_number_iff:
  "weeks_has_number st
     \<longleftrightarrow> (\<exists>cd. course_data st = Some cd \<and> (\<exists>r \<in> set (rows (deref st cd)). \<exists>n. weeks r = Number n))"
proof (cases "course_data st")
  case None
  then show ?thesis by (simp add: weeks_has_number_def)
next
  case (Some cd)
  have "(case c of Number n \<Rightarrow> True | _ \<Rightarrow> False) \<longleftrightarrow> (\<exists>n. c = Number n)" for c :: cell
    by (cases c) simp_all
  with Some show ?thesis by (simp add: weeks_has_number_def list_ex_iff)
qed

lemma get_today_courses_result:
  "(weeks_has_number st \<longrightarrow>
      get_today_courses argsort strptime_ymd now1 now2 st = Inl TypeError)
   \<and> (\<not> weeks_has_number st \<longrightarrow>
        (\<exists>res st'. get_today_courses argsort strptime_ymd now1 now2 st = Inr (res, st')
           \<and> res < length (frames st')
           \<and> rows (deref st' res) = today_rows argsort strptime_ymd now1 now2 st
           \<and> take (length (frames st)) (frames st') = frames st
           \<and> same_session st st'))"
proof (cases "course_data st")
  case None
  then have "\<not> weeks_has_number st" by (simp add: weeks_has_number_def)
  moreover have "\<exists>res st'. get_today_courses argsort strptime_ymd now1 now2 st = Inr (res, st')
           \<and> res < length (frames st')
           \<and> rows (deref st' res) = today_rows argsort strptime_ymd now1 now2 st
           \<and> take (length (frames st)) (frames st') = frames st
           \<and> same_session st st'"
    using None
    by (simp add: get_today_courses_none today_rows_def deref_def same_session_def)
  ultimately show ?thesis by blast
next
  case (Some cd)
  show ?thesis
  proof (cases "weeks_has_number st")
    case True
    with Some have "\<exists>r \<in> set (rows (deref st cd)). \<exists>n. weeks r = Number n"
      by (simp add: weeks_has_number_iff)
    from get_today_courses_raises[OF Some this] True show ?thesis by simp
  next
    case False
    with Some have "\<forall>r \<in> set (rows (deref st cd)). \<forall>n. weeks r \<noteq> Number n"
      by (simp add: weeks_has_number_iff)
    from get_today_courses_spec[OF Some this, of argsort strptime_ymd now1 now2] False Some
    show ?thesis by (simp add: today_rows_def Let_def)
  qed
qed

lemma get_today_courses_returned:
  assumes "get_today_courses argsort strptime_ymd now1 now2 st = Inr (res, st')"
  shows "\<not> weeks_has_number st \<and> res < length (frames st')
         \<and> rows (deref st' res) = today_rows argsort strptime_ymd now1 now2 st
         \<and> take (length (frames st)) (frames st') = frames st \<and> same_session st st'"
  using get_today_courses_result[of st argsort strptime_ymd now1 now2] assms
  by (cases "weeks_has_number st") auto

lemma argsort_ok_set: "argsort_ok argsort \<Longrightarrow> set (argsort keys) = {0..<length keys}"
proof -
  assume "argsort_ok argsort"
  then have "mset (argsort keys) = mset [0..<length keys]" by (simp add: argsort_ok_def)
  then have "set (argsort keys) = set [0..<length keys]" by (rule mset_eq_setD)
  then show ?thesis by simp
qed

lemma take_rows_keys:
  "\<forall>i \<in> set idx. i < length xs \<Longrightarrow>
     map key (take_rows idx xs) = map (\<lambda>i. map key xs ! i) idx"
  by (simp add: take_rows_def)

lemma take_rows_sorted:
  assumes "argsort_ok argsort"
  shows "sorted (map key (take_rows (argsort (map key xs)) xs))"
proof -
  let ?idx = "argsort (map key xs)"
  from argsort_ok_set[OF assms, of "map key xs"] have "\<forall>i \<in> set ?idx. i < length xs" by simp
  then have "map key (take_rows ?idx xs) = map (\<lambda>i. map key xs ! i) ?idx"
    by (rule take_rows_keys)
  moreover from assms have "sorted (map (\<lambda>i. map key xs ! i) ?idx)"
    by (simp add: argsort_ok_def)
  ultimately show ?thesis by simp
qed

lemma take_rows_mset:
  assumes "argsort_ok argsort"
  shows "mset (take_rows (argsort (map key xs)) xs) = mset xs"
proof -
  let ?idx = "argsort (map key xs)"
  from assms have "mset ?idx = mset [0..<length xs]" by (simp add: argsort_ok_def)
  then have "image_mset (\<lambda>i. xs ! i) (mset ?idx) = image_mset (\<lambda>i. xs ! i) (mset [0..<length xs])"
    by simp
  then have "mset (map (\<lambda>i. xs ! i) ?idx) = mset (map (\<lambda>i. xs ! i) [0..<length xs])"
    by simp
  then show ?thesis by (simp add: take_rows_def map_nth)
qed

lemma argsort_ok_stable: "argsort_ok stable_argsort"
  by (simp add: argsort_ok_def stable_argsort_def)

lemma take_rows_stable: "ties_kept key xs (take_rows (stable_argsort (map key xs)) xs)"
proof -
  let ?keys = "map key xs"
  let ?idx = "sort_key (\<lambda>i. ?keys ! i) [0..<length xs]"
  have inb: "\<forall>i \<in> set ?idx. i < length xs" by simp
  have "filter (\<lambda>x. key x = k) (map (\<lambda>i. xs ! i) ?idx) = filter (\<lambda>x. key x = k) xs" for k
  proof -
    have "filter (\<lambda>x. key x = k) (map (\<lambda>i. xs ! i) ?idx)
            = map (\<lambda>i. xs ! i) (filter (\<lambda>i. key (xs ! i) = k) ?idx)"
      by (simp add: filter_map comp_def)
    also have "filter (\<lambda>i. key (xs ! i) = k) ?idx = filter (\<lambda>i. ?keys ! i = k) ?idx"
      using inb by (intro filter_cong) auto
    also have "\<dots> = filter (\<lambda>i. ?keys ! i = k) [0..<length xs]"
      by (rule sort_key_stable)
    also have "\<dots> = filter (\<lambda>i. key (xs ! i) = k) [0..<length xs]"
      by (intro filter_cong) auto
    also have "map (\<lambda>i. xs ! i) \<dots> = filter (\<lambda>x. key x = k) (map (\<lambda>i. xs ! i) [0..<length xs])"
      by (simp add: filter_map comp_def)
    also have "\<dots> = filter (\<lambda>x. key x = k) xs" by (simp add: map_nth)
    finally show ?thesis .
  qed
  then show ?thesis by (simp add: ties_kept_def take_rows_def stable_argsort_def)
qed

lemma merged_snoc:
  "merged wd wk (adjs @ [adjust]) rs =
     (if adjustment_applies wd wk adjust then replace_or_append adjust (merged wd wk adjs rs)
      else merged wd wk adjs rs)"
  by (induction adjs arbitrary: rs) simp_all

lemma remind_scan_find:
  "remind_scan now (now + m * minute_us) sched = find (starts_within now m) sched"
  by (induction sched) (simp_all add: starts_within_def Let_def)

section \<open>Properties of today's courses\<close>

lemma example_loaded_facts:
  "well_formed example_loaded" "\<not> weeks_has_number example_loaded"
  "course_data example_loaded = Some 0"
  "isoweekday example_now = 1"
  "get_week_num example_strptime_ymd example_loaded example_now = 1"
  by code_simp+

lemma example_loaded_rows:
  "unsorted_today example_strptime_ymd example_now example_now example_loaded
     = [replace_with adjustment_a row_math, row_art, new_course adjustment_b]"
  "today_rows stable_argsort example_strptime_ymd example_now example_now example_loaded
     = [row_art, replace_with adjustment_a row_math, new_course adjustment_b]"
  by code_simp+

text \<open>
  C9. Computing today's courses leaves the session as it was: the call either raises
  before it makes or changes any table (a number in the week-range column) or returns, and
  then the reference to the base table, the list of adjustments and every table that
  existed before the call, the base table among them, are what they were. The work is done
  on copies: new objects of the store.
\<close>

theorem get_today_courses_keeps_state:
  "well_formed st \<Longrightarrow>
     (weeks_has_number st \<longrightarrow>
        get_today_courses argsort strptime_ymd now1 now2 st = Inl TypeError)
     \<and> (\<not> weeks_has_number st \<longrightarrow>
          (\<exists>res st'. get_today_courses argsort strptime_ymd now1 now2 st = Inr (res, st')
             \<and> course_data st' = course_data st
             \<and> adjust_courses st' = adjust_courses st
             \<and> take (length (frames st)) (frames st') = frames st
             \<and> (\<forall>cd. course_data st = Some cd \<longrightarrow> deref st' cd = deref st cd)))"
proof -
  assume wf: "well_formed st"
  note res = get_today_courses_result[of st argsort strptime_ymd now1 now2]
  show ?thesis
  proof (cases "weeks_has_number st")
    case True
    with res show ?thesis by blast
  next
    case False
    with res obtain r st' where
      g: "get_today_courses argsort strptime_ymd now1 now2 st = Inr (r, st')"
      and tk: "take (length (frames st)) (frames st') = frames st"
      and ss: "same_session st st'"
      by blast
    have d: "\<forall>cd. course_data st = Some cd \<longrightarrow> deref st' cd = deref st cd"
    proof (intro allI impI)
      fix cd assume "course_data st = Some cd"
      with wf have "cd < length (frames st)" by (simp add: well_formed_def)
      then have "take (length (frames st)) (frames st') ! cd = frames st' ! cd" by simp
      with tk show "deref st' cd = deref st cd" by (simp add: deref_def)
    qed
    from ss have c: "course_data st' = course_data st" "adjust_courses st' = adjust_courses st"
      by (simp_all add: same_session_def)
    have "get_today_courses argsort strptime_ymd now1 now2 st = Inr (r, st')
             \<and> course_data st' = course_data st
             \<and> adjust_courses st' = adjust_courses st
             \<and> take (length (frames st)) (frames st') = frames st
             \<and> (\<forall>cd. course_data st = Some cd \<longrightarrow> deref st' cd = deref st cd)"
      using g c tk d by (intro conjI)
    then have "\<exists>res st'. get_today_courses argsort strptime_ymd now1 now2 st = Inr (res, st')
             \<and> course_data st' = course_data st
             \<and> adjust_courses st' = adjust_courses st
             \<and> take (length (frames st)) (frames st') = frames st
             \<and> (\<forall>cd. course_data st = Some cd \<longrightarrow> deref st' cd = deref st cd)"
      by (intro exI)
    with False show ?thesis by simp
  qed
qed

theorem get_today_courses_keeps_state_witness:
  "\<exists>res st'. get_today_courses stable_argsort example_strptime_ymd example_now example_now
                example_loaded = Inr (res, st')
     \<and> course_data st' = Some 0
     \<and> adjust_courses st' = [adjustment_a, adjustment_b]
     \<and> deref st' 0 = \<lparr>rows = [row_math, row_art, row_pe], start_obj = None\<rparr>"
proof -
  have e: "course_data example_loaded = Some 0"
    "adjust_courses example_loaded = [adjustment_a, adjustment_b]"
    "deref example_loaded 0 = \<lparr>rows = [row_math, row_art, row_pe], start_obj = None\<rparr>"
    by (simp_all add: example_loaded_def deref_def)
  from get_today_courses_keeps_state[OF example_loaded_facts(1),
      of stable_argsort example_strptime_ymd example_now example_now]
    example_loaded_facts(2)
  obtain res st' where
    g: "get_today_courses stable_argsort example_strptime_ymd example_now example_now
          example_loaded = Inr (res, st')"
    and c: "course_data st' = course_data example_loaded"
      "adjust_courses st' = adjust_courses example_loaded"
    and d: "\<forall>cd. course_data example_loaded = Some cd \<longrightarrow> deref st' cd = deref example_loaded cd"
    by blast
  from d e(1) have "deref st' 0 = deref example_loaded 0" by blast
  with g c e have x: "get_today_courses stable_argsort example_strptime_ymd example_now example_now
                example_loaded = Inr (res, st')
     \<and> course_data st' = Some 0
     \<and> adjust_courses st' = [adjustment_a, adjustment_b]
     \<and> deref st' 0 = \<lparr>rows = [row_math, row_art, row_pe], start_obj = None\<rparr>"
    by simp
  show ?thesis by (rule exI[of _ res], rule exI[of _ st'], rule x)
qed

text \<open>
  C1, as stated, has every adjustment that applies today either replace a selected row with
  its original start time and course name or, when no selected row has them, append a new
  row. The code departs from this in two places. Before a schedule has been loaded
  (\<^verbatim>\<open>course_data\<close> is \<^verbatim>\<open>None\<close>) the function returns an empty table at once: an adjustment
  that applies today, for which no row can match, is not appended. And the code looks for
  the original start time and course name in the table as the earlier adjustments left it,
  not in the selected rows: after the first adjustment has turned the selected row Math at
  08:00 into Physics at 07:15, a second adjustment of Physics at 07:15, which no selected
  row matches, replaces that row again and appends nothing: the table returned has neither
  the new row of the second adjustment nor the row the first one made.
\<close>

theorem get_today_courses_merge_counterexample:
  "adjustment_applies (isoweekday example_now)
     (get_week_num example_strptime_ymd (example_state\<lparr>adjust_courses := [adjustment_a]\<rparr>) example_now)
     adjustment_a
   \<and> get_today_courses stable_argsort example_strptime_ymd example_now example_now
        (example_state\<lparr>adjust_courses := [adjustment_a]\<rparr>)
       = Inr (0, example_state\<lparr>adjust_courses := [adjustment_a],
                               frames := [\<lparr>rows = [], start_obj = None\<rparr>]\<rparr>)
   \<and> adjustment_applies (isoweekday example_now)
       (get_week_num example_strptime_ymd
          (example_loaded\<lparr>adjust_courses := [adjustment_a, adjustment_c]\<rparr>) example_now)
       adjustment_c
   \<and> selected (isoweekday example_now)
       (get_week_num example_strptime_ymd
          (example_loaded\<lparr>adjust_courses := [adjustment_a, adjustment_c]\<rparr>) example_now)
       [row_math, row_art, row_pe] = [row_math, row_art]
   \<and> \<not> key_matches adjustment_c row_math \<and> \<not> key_matches adjustment_c row_art
   \<and> (case get_today_courses stable_argsort example_strptime_ymd example_now example_now
              (example_loaded\<lparr>adjust_courses := [adjustment_a, adjustment_c]\<rparr>) of
         Inl e \<Rightarrow> False
       | Inr (res, st') \<Rightarrow>
           rows (deref st' res)
             = [row_art, replace_with adjustment_c (replace_with adjustment_a row_math)])
   \<and> new_course adjustment_c
       \<notin> set [row_art, replace_with adjustment_c (replace_with adjustment_a row_math)]
   \<and> replace_with adjustment_a row_math
       \<notin> set [row_art, replace_with adjustment_c (replace_with adjustment_a row_math)]"
  by code_simp

text \<open>
  C1, amended. When no schedule is loaded the call returns the empty table and applies no
  adjustment. When a schedule is loaded and some cell of its week-range column is a number
  the call raises \<^verbatim>\<open>TypeError\<close>. Otherwise the table returned is the merged table in the
  order of the sort, so with a correct sort it has exactly the rows of the merged table,
  the appended ones among them. The merged table is made from the selected rows by the
  adjustments in their order, each one that applies today working on the table the earlier
  ones left: if some row of that table has the adjustment's original start time and course
  name, every such row gets the adjustment's new name, place, teacher, start and end, and
  the other rows stay; otherwise one new row made of the adjustment's new fields is
  appended.
\<close>

theorem get_today_courses_merge:
  "(course_data st = None \<longrightarrow>
      (\<exists>res st'. get_today_courses argsort strptime_ymd now1 now2 st = Inr (res, st')
         \<and> rows (deref st' res) = []))
   \<and> (weeks_has_number st \<longrightarrow>
        get_today_courses argsort strptime_ymd now1 now2 st = Inl TypeError)
   \<and> (course_data st = Some cd \<longrightarrow> \<not> weeks_has_number st \<longrightarrow>
        (\<exists>res st'. get_today_courses argsort strptime_ymd now1 now2 st = Inr (res, st')
           \<and> rows (deref st' res)
               = take_rows (argsort (map start_key (merged_today strptime_ymd now1 now2 st cd)))
                   (merged_today strptime_ymd now1 now2 st cd)
           \<and> (argsort_ok argsort \<longrightarrow>
                mset (rows (deref st' res)) = mset (merged_today strptime_ymd now1 now2 st cd))))
   \<and> merged_today strptime_ymd now1 now2 st cd
       = merged (isoweekday now1) (get_week_num strptime_ymd st now2) (adjust_courses st)
           (filter (\<lambda>r. weekday r = Number (isoweekday now1)
                        \<and> check_week_range (weeks r) (get_week_num strptime_ymd st now2) = Inr True)
              (rows (deref st cd)))
   \<and> merged wd wk [] rs = rs
   \<and> merged wd wk (adjs @ [adjust]) rs =
       (if adj_weekday adjust = wd \<and> check_week_range (Text (adj_weeks adjust)) wk = Inr True
        then if \<exists>r \<in> set (merged wd wk adjs rs).
                  start_time r = Text (orig_start adjust) \<and> course_name r = Text (orig_name adjust)
             then map (\<lambda>r. if start_time r = Text (orig_start adjust)
                                \<and> course_name r = Text (orig_name adjust)
                             then r\<lparr>course_name := Text (new_name adjust),
                                    place := Text (new_place adjust),
                                    teacher := Text (new_teacher adjust),
                                    start_time := Text (new_start adjust),
                                    end_time := Text (new_end adjust)\<rparr>
                             else r)
                    (merged wd wk adjs rs)
             else merged wd wk adjs rs
                    @ [\<lparr>weekday = Number (adj_weekday adjust), start_time = Text (new_start adjust),
                        end_time = Text (new_end adjust), course_name = Text (new_name adjust),
                        place = Text (new_place adjust), teacher = Text (new_teacher adjust),
                        weeks = Text (adj_weeks adjust)\<rparr>]
        else merged wd wk adjs rs)"
proof -
  let ?M = "merged_today strptime_ymd now1 now2 st cd"
  note res = get_today_courses_result[of st argsort strptime_ymd now1 now2]
  have n: "course_data st = None \<longrightarrow>
      (\<exists>res st'. get_today_courses argsort strptime_ymd now1 now2 st = Inr (res, st')
         \<and> rows (deref st' res) = [])"
  proof
    assume none: "course_data st = None"
    define st1 where "st1 = st\<lparr>frames := frames st @ [\<lparr>rows = [], start_obj = None\<rparr>]\<rparr>"
    from get_today_courses_none[OF none, of argsort strptime_ymd now1 now2]
    have g: "get_today_courses argsort strptime_ymd now1 now2 st = Inr (length (frames st), st1)"
      by (simp add: st1_def)
    have "rows (deref st1 (length (frames st))) = []"
      by (simp add: st1_def deref_def)
    with g have "get_today_courses argsort strptime_ymd now1 now2 st = Inr (length (frames st), st1)
         \<and> rows (deref st1 (length (frames st))) = []"
      by (intro conjI)
    then show "\<exists>res st'. get_today_courses argsort strptime_ymd now1 now2 st = Inr (res, st')
         \<and> rows (deref st' res) = []"
      by (intro exI)
  qed
  have t: "weeks_has_number st \<longrightarrow>
        get_today_courses argsort strptime_ymd now1 now2 st = Inl TypeError"
    using res by (rule conjunct1)
  have a: "course_data st = Some cd \<longrightarrow> \<not> weeks_has_number st \<longrightarrow>
        (\<exists>res st'. get_today_courses argsort strptime_ymd now1 now2 st = Inr (res, st')
           \<and> rows (deref st' res) = take_rows (argsort (map start_key ?M)) ?M
           \<and> (argsort_ok argsort \<longrightarrow> mset (rows (deref st' res)) = mset ?M))"
  proof (intro impI)
    assume cd: "course_data st = Some cd" and nn: "\<not> weeks_has_number st"
    from res nn cd
    obtain r st' where g: "get_today_courses argsort strptime_ymd now1 now2 st = Inr (r, st')"
      and r: "rows (deref st' r) = take_rows (argsort (map start_key ?M)) ?M"
      by (auto simp: today_rows_def)
    have m: "argsort_ok argsort \<longrightarrow> mset (rows (deref st' r)) = mset ?M"
      using r take_rows_mset[of argsort start_key ?M] by simp
    from g r m show "\<exists>res st'. get_today_courses argsort strptime_ymd now1 now2 st = Inr (res, st')
           \<and> rows (deref st' res) = take_rows (argsort (map start_key ?M)) ?M
           \<and> (argsort_ok argsort \<longrightarrow> mset (rows (deref st' res)) = mset ?M)"
      by blast
  qed
  have b: "?M = merged (isoweekday now1) (get_week_num strptime_ymd st now2) (adjust_courses st)
             (filter (\<lambda>r. weekday r = Number (isoweekday now1)
                          \<and> check_week_range (weeks r) (get_week_num strptime_ymd st now2) = Inr True)
                (rows (deref st cd)))"
    by (simp add: merged_today_def selected_def)
  have d: "merged wd wk [] rs = rs" by simp
  have c: "merged wd wk (adjs @ [adjust]) rs =
         (if adj_weekday adjust = wd \<and> check_week_range (Text (adj_weeks adjust)) wk = Inr True
          then if \<exists>r \<in> set (merged wd wk adjs rs).
                    start_time r = Text (orig_start adjust) \<and> course_name r = Text (orig_name adjust)
               then map (\<lambda>r. if start_time r = Text (orig_start adjust)
                                  \<and> course_name r = Text (orig_name adjust)
                               then r\<lparr>course_name := Text (new_name adjust),
                                      place := Text (new_place adjust),
                                      teacher := Text (new_teacher adjust),
                                      start_time := Text (new_start adjust),
                                      end_time := Text (new_end adjust)\<rparr>
                               else r)
                      (merged wd wk adjs rs)
               else merged wd wk adjs rs
                      @ [\<lparr>weekday = Number (adj_weekday adjust), start_time = Text (new_start adjust),
                          end_time = Text (new_end adjust), course_name = Text (new_name adjust),
                          place = Text (new_place adjust), teacher = Text (new_teacher adjust),
                          weeks = Text (adj_weeks adjust)\<rparr>]
          else merged wd wk adjs rs)"
    unfolding merged_snoc
    by (auto simp: adjustment_applies_def replace_or_append_def key_matches_def list_ex_iff
        replace_with_def new_course_def)
  from n t a b d c show ?thesis by (intro conjI)
qed

theorem get_today_courses_merge_witness:
  "(\<exists>res st'. get_today_courses stable_argsort example_strptime_ymd example_now example_now
                 (example_state\<lparr>adjust_courses := [adjustment_a]\<rparr>) = Inr (res, st')
      \<and> rows (deref st' res) = [])
   \<and> get_today_courses stable_argsort example_strptime_ymd example_now example_now
        (example_loaded\<lparr>frames := [\<lparr>rows = [row_math\<lparr>weeks := Number 8\<rparr>], start_obj = None\<rparr>]\<rparr>)
       = Inl TypeError
   \<and> (\<exists>res st'. get_today_courses stable_argsort example_strptime_ymd example_now example_now
                   example_loaded = Inr (res, st')
        \<and> rows (deref st' res)
            = [row_art, replace_with adjustment_a row_math, new_course adjustment_b]
        \<and> mset (rows (deref st' res))
            = mset [replace_with adjustment_a row_math, row_art, new_course adjustment_b])"
proof -
  define L where "L = [replace_with adjustment_a row_math, row_art, new_course adjustment_b]"
  define S0 where "S0 = example_state\<lparr>adjust_courses := [adjustment_a]\<rparr>"
  define S8 where
    "S8 = example_loaded\<lparr>frames := [\<lparr>rows = [row_math\<lparr>weeks := Number 8\<rparr>], start_obj = None\<rparr>]\<rparr>"
  have h0: "course_data S0 = None"
    by (simp add: S0_def example_state_def)
  have h8: "weeks_has_number S8"
    unfolding S8_def by code_simp
  have one: "\<exists>res st'. get_today_courses stable_argsort example_strptime_ymd example_now
                 example_now S0 = Inr (res, st')
      \<and> rows (deref st' res) = []"
    by (rule get_today_courses_merge[where st = S0, THEN conjunct1, THEN mp, OF h0])
  have two: "get_today_courses stable_argsort example_strptime_ymd example_now example_now S8
       = Inl TypeError"
    by (rule get_today_courses_merge[where st = S8, THEN conjunct2, THEN conjunct1, THEN mp,
          OF h8])
  have u: "merged_today example_strptime_ymd example_now example_now example_loaded 0 = L"
    using example_loaded_rows(1) by (simp add: unsorted_today_def example_loaded_facts(3) L_def)
  have t: "take_rows (stable_argsort (map start_key L)) L
            = [row_art, replace_with adjustment_a row_math, new_course adjustment_b]"
    using example_loaded_rows(2) by (simp add: today_rows_def example_loaded_facts(3) u)
  from get_today_courses_merge[where st = example_loaded and cd = 0
      and argsort = stable_argsort and strptime_ymd = example_strptime_ymd
      and ?now1.0 = example_now and ?now2.0 = example_now,
      THEN conjunct2, THEN conjunct2, THEN conjunct1, THEN mp, THEN mp,
      OF example_loaded_facts(3) example_loaded_facts(2)]
  obtain res st' where
    "get_today_courses stable_argsort example_strptime_ymd example_now example_now
       example_loaded = Inr (res, st')"
    "rows (deref st' res) = take_rows (stable_argsort (map start_key L)) L"
    "argsort_ok stable_argsort \<longrightarrow> mset (rows (deref st' res)) = mset L"
    unfolding u by blast
  then have "get_today_courses stable_argsort example_strptime_ymd example_now example_now
       example_loaded = Inr (res, st')
     \<and> rows (deref st' res) = [row_art, replace_with adjustment_a row_math, new_course adjustment_b]
     \<and> mset (rows (deref st' res)) = mset L"
    using argsort_ok_stable t by simp
  then have x: "get_today_courses stable_argsort example_strptime_ymd example_now example_now
       example_loaded = Inr (res, st')
     \<and> rows (deref st' res) = [row_art, replace_with adjustment_a row_math, new_course adjustment_b]
     \<and> mset (rows (deref st' res))
         = mset [replace_with adjustment_a row_math, row_art, new_course adjustment_b]"
    unfolding L_def .
  have three: "\<exists>res st'. get_today_courses stable_argsort example_strptime_ymd example_now
                   example_now example_loaded = Inr (res, st')
        \<and> rows (deref st' res)
            = [row_art, replace_with adjustment_a row_math, new_course adjustment_b]
        \<and> mset (rows (deref st' res))
            = mset [replace_with adjustment_a row_math, row_art, new_course adjustment_b]"
    by (rule exI[of _ res], rule exI[of _ st'], rule x)
  from one two three show ?thesis unfolding S0_def S8_def by (intro conjI)
qed

section \<open>Properties of the reminder\<close>

text \<open>
  C2. On a schedule in its given order the reminder scan returns the first row whose start,
  on the day of \<open>now\<close>, lies between \<open>now\<close> and \<open>m\<close> minutes later, and nothing when the
  schedule is empty or no row starts in that window. \<^verbatim>\<open>check_remind\<close> stores the outcome of
  this scan over today's courses, with the session's lookahead, as the current reminder
  (and raises what \<^verbatim>\<open>get_today_courses\<close> raises).
\<close>

theorem check_remind_first_in_window:
  "remind_scan now (now + m * minute_us) [] = None
   \<and> ((\<forall>r \<in> set sched. \<not> starts_within now m r) \<longrightarrow>
        remind_scan now (now + m * minute_us) sched = None)
   \<and> (i < length sched \<longrightarrow> starts_within now m (sched ! i) \<longrightarrow>
        (\<forall>j < i. \<not> starts_within now m (sched ! j)) \<longrightarrow>
        remind_scan now (now + m * minute_us) sched = Some (sched ! i))
   \<and> (case get_today_courses argsort strptime_ymd now1 now2 st of
         Inl e \<Rightarrow> check_remind argsort strptime_ymd now1 now2 now st = Inl e
       | Inr (a, st1) \<Rightarrow>
           check_remind argsort strptime_ymd now1 now2 now st
             = Inr (st1\<lparr>current_remind :=
                          remind_scan now (now + remind_minutes st * minute_us)
                            (rows (deref st1 a))\<rparr>))"
proof -
  have a: "remind_scan now (now + m * minute_us) sched = None"
    if "\<forall>r \<in> set sched. \<not> starts_within now m r"
    using that by (simp add: remind_scan_find find_None_iff)
  have b: "remind_scan now (now + m * minute_us) sched = Some (sched ! i)"
    if "i < length sched" "starts_within now m (sched ! i)"
      "\<forall>j < i. \<not> starts_within now m (sched ! j)"
    unfolding remind_scan_find find_Some_iff using that by blast
  have c: "(case get_today_courses argsort strptime_ymd now1 now2 st of
         Inl e \<Rightarrow> check_remind argsort strptime_ymd now1 now2 now st = Inl e
       | Inr (a, st1) \<Rightarrow>
           check_remind argsort strptime_ymd now1 now2 now st
             = Inr (st1\<lparr>current_remind :=
                          remind_scan now (now + remind_minutes st * minute_us)
                            (rows (deref st1 a))\<rparr>))"
  proof (cases "get_today_courses argsort strptime_ymd now1 now2 st")
    case (Inl e)
    then show ?thesis by (simp add: check_remind_def)
  next
    case (Inr p)
    obtain a st1 where p: "p = (a, st1)" by (cases p)
    from get_today_courses_returned[OF Inr[unfolded p]]
    have rm: "remind_minutes st1 = remind_minutes st" by (simp add: same_session_def)
    show ?thesis
    proof (cases "rows (deref st1 a) = []")
      case True
      with Inr p show ?thesis by (simp add: check_remind_def)
    next
      case False
      with Inr p rm show ?thesis by (simp add: check_remind_def Let_def)
    qed
  qed
  from a b c show ?thesis by simp
qed

theorem check_remind_first_in_window_witness:
  "remind_scan example_now (example_now + 10 * minute_us)
      [row_art, replace_with adjustment_a row_math, new_course adjustment_b]
     = Some (new_course adjustment_b)
   \<and> remind_scan (example_now + 35 * minute_us) (example_now + 35 * minute_us + 10 * minute_us)
      [row_art, replace_with adjustment_a row_math, new_course adjustment_b]
     = None
   \<and> (\<exists>st2. check_remind stable_argsort example_strptime_ymd example_now example_now example_now
               example_loaded = Inr st2
          \<and> current_remind st2 = Some (new_course adjustment_b))"
proof -
  define sched where
    "sched = [row_art, replace_with adjustment_a row_math, new_course adjustment_b]"
  have w: "\<not> starts_within example_now 10 row_art"
    "\<not> starts_within example_now 10 (replace_with adjustment_a row_math)"
    "starts_within example_now 10 (new_course adjustment_b)"
    "\<not> starts_within (example_now + 35 * minute_us) 10 row_art"
    "\<not> starts_within (example_now + 35 * minute_us) 10 (replace_with adjustment_a row_math)"
    "\<not> starts_within (example_now + 35 * minute_us) 10 (new_course adjustment_b)"
    by code_simp+
  have s: "length sched = 3" "sched ! 0 = row_art" "sched ! 1 = replace_with adjustment_a row_math"
    "sched ! 2 = new_course adjustment_b"
    by (simp_all add: sched_def)
  have lt: "\<forall>j < 2. \<not> starts_within example_now 10 (sched ! j)"
  proof (intro allI impI)
    fix j :: nat assume "j < 2"
    then have "j = 0 \<or> j = 1" by auto
    with w s show "\<not> starts_within example_now 10 (sched ! j)" by auto
  qed
  have none: "\<forall>r \<in> set sched. \<not> starts_within (example_now + 35 * minute_us) 10 r"
    using w by (simp add: sched_def)
  have one: "remind_scan example_now (example_now + 10 * minute_us) sched
               = Some (new_course adjustment_b)"
    using check_remind_first_in_window[where now = example_now and m = 10 and sched = sched and i = 2]
      s w lt by simp
  have two: "remind_scan (example_now + 35 * minute_us)
               (example_now + 35 * minute_us + 10 * minute_us) sched = None"
    using check_remind_first_in_window[where now = "example_now + 35 * minute_us" and m = 10
        and sched = sched] none
    by simp
  from get_today_courses_result[of example_loaded stable_argsort example_strptime_ymd
      example_now example_now] example_loaded_facts(2) example_loaded_rows(2)
  obtain res st1 where
    g: "get_today_courses stable_argsort example_strptime_ymd example_now example_now
          example_loaded = Inr (res, st1)"
    and r: "rows (deref st1 res) = sched"
    unfolding sched_def by auto
  have rm: "remind_minutes example_loaded = 10" by (simp add: example_loaded_def)
  from check_remind_first_in_window[where argsort = stable_argsort
      and strptime_ymd = example_strptime_ymd and ?now1.0 = example_now and ?now2.0 = example_now
      and now = example_now and st = example_loaded]
  have "check_remind stable_argsort example_strptime_ymd example_now example_now example_now
          example_loaded
        = Inr (st1\<lparr>current_remind := Some (new_course adjustment_b)\<rparr>)"
    by (simp add: g r rm one)
  then have three: "\<exists>st2. check_remind stable_argsort example_strptime_ymd example_now example_now
               example_now example_loaded = Inr st2
          \<and> current_remind st2 = Some (new_course adjustment_b)"
    by simp
  from one two three show ?thesis unfolding sched_def by (intro conjI)
qed

section \<open>The order of today's courses\<close>

text \<open>
  C4, as stated, has the rows with equal start times in their insertion order. The code
  sorts with the default kind of \<^verbatim>\<open>sort_values\<close>, which is not stable: on eighteen rows
  that all start at 08:00 the library's quicksort returns the rows 0, 15, 14, ..., 1, 16, 17.
  The table returned is sorted, but the ties are not in insertion order.
\<close>

theorem get_today_courses_order_counterexample:
  "unsorted_today example_strptime_ymd example_now example_now example_ties
     = map ties_row [0..<18]
   \<and> map start_key (map ties_row [0..<18]) = replicate 18 480
   \<and> (case get_today_courses npy_aquicksort example_strptime_ymd example_now example_now
              example_ties of
         Inl e \<Rightarrow> False
       | Inr (res, st') \<Rightarrow>
           rows (deref st' res)
             = map ties_row [0, 15, 14, 13, 12, 11, 10, 9, 8, 7, 6, 5, 4, 3, 2, 1, 16, 17])
   \<and> sorted (map start_key
        (map ties_row [0, 15, 14, 13, 12, 11, 10, 9, 8, 7, 6, 5, 4, 3, 2, 1, 16, 17]))
   \<and> \<not> ties_kept start_key (map ties_row [0..<18])
        (map ties_row [0, 15, 14, 13, 12, 11, 10, 9, 8, 7, 6, 5, 4, 3, 2, 1, 16, 17])"
proof -
  have a: "unsorted_today example_strptime_ymd example_now example_now example_ties
             = map ties_row [0..<18]"
    by code_simp
  have b: "map start_key (map ties_row [0..<18]) = replicate 18 480"
    by code_simp
  have c: "(case get_today_courses npy_aquicksort example_strptime_ymd example_now example_now
              example_ties of
         Inl e \<Rightarrow> False
       | Inr (res, st') \<Rightarrow>
           rows (deref st' res)
             = map ties_row [0, 15, 14, 13, 12, 11, 10, 9, 8, 7, 6, 5, 4, 3, 2, 1, 16, 17])"
    by code_simp
  have d: "sorted (map start_key
        (map ties_row [0, 15, 14, 13, 12, 11, 10, 9, 8, 7, 6, 5, 4, 3, 2, 1, 16, 17]))"
    by code_simp
  have f1: "filter (\<lambda>x. start_key x = 480) (map ties_row [0..<18]) = map ties_row [0..<18]"
    by code_simp
  have f2: "filter (\<lambda>x. start_key x = 480)
              (map ties_row [0, 15, 14, 13, 12, 11, 10, 9, 8, 7, 6, 5, 4, 3, 2, 1, 16, 17])
            = map ties_row [0, 15, 14, 13, 12, 11, 10, 9, 8, 7, 6, 5, 4, 3, 2, 1, 16, 17]"
    by code_simp
  have ne: "map ties_row [0, 15, 14, 13, 12, 11, 10, 9, 8, 7, 6, 5, 4, 3, 2, 1, 16, 17]
              \<noteq> map ties_row [0..<18]"
    by code_simp
  have e: "\<not> ties_kept start_key (map ties_row [0..<18])
        (map ties_row [0, 15, 14, 13, 12, 11, 10, 9, 8, 7, 6, 5, 4, 3, 2, 1, 16, 17])"
  proof
    assume "ties_kept start_key (map ties_row [0..<18])
        (map ties_row [0, 15, 14, 13, 12, 11, 10, 9, 8, 7, 6, 5, 4, 3, 2, 1, 16, 17])"
    then have "filter (\<lambda>x. start_key x = 480)
              (map ties_row [0, 15, 14, 13, 12, 11, 10, 9, 8, 7, 6, 5, 4, 3, 2, 1, 16, 17])
            = filter (\<lambda>x. start_key x = 480) (map ties_row [0..<18])"
      unfolding ties_kept_def by (rule spec)
    with f1 f2 ne show False by simp
  qed
  from a b c d e show ?thesis by (intro conjI)
qed

text \<open>
  C4, amended. Whenever the call returns (the week-range column holds no number), and
  whatever correct sort stands behind \<^verbatim>\<open>sort_values\<close>, the table returned is sorted
  ascending by parsed start time and has exactly the rows of the merged table. With a
  stable sort, rows with equal parsed start times are in their insertion order; the default
  kind the code uses promises no order among them.
\<close>

theorem get_today_courses_sorted:
  "\<not> weeks_has_number st \<Longrightarrow>
     (argsort_ok argsort \<longrightarrow>
        (\<exists>res st'. get_today_courses argsort strptime_ymd now1 now2 st = Inr (res, st')
           \<and> sorted (map start_key (rows (deref st' res)))
           \<and> mset (rows (deref st' res)) = mset (unsorted_today strptime_ymd now1 now2 st)))
     \<and> (\<exists>res st'. get_today_courses stable_argsort strptime_ymd now1 now2 st = Inr (res, st')
           \<and> ties_kept start_key (unsorted_today strptime_ymd now1 now2 st)
                (rows (deref st' res)))"
proof -
  assume nn: "\<not> weeks_has_number st"
  have srt: "sorted (map start_key (today_rows f strptime_ymd now1 now2 st))
               \<and> mset (today_rows f strptime_ymd now1 now2 st)
                   = mset (unsorted_today strptime_ymd now1 now2 st)"
    if "argsort_ok f" for f
  proof (cases "course_data st")
    case None
    then show ?thesis by (simp add: today_rows_def unsorted_today_def)
  next
    case (Some cd)
    let ?M = "merged_today strptime_ymd now1 now2 st cd"
    have "sorted (map start_key (take_rows (f (map start_key ?M)) ?M))"
      by (rule take_rows_sorted[OF that])
    moreover have "mset (take_rows (f (map start_key ?M)) ?M) = mset ?M"
      by (rule take_rows_mset[OF that])
    ultimately show ?thesis using Some
      by (simp add: today_rows_def unsorted_today_def)
  qed
  have stb: "ties_kept start_key (unsorted_today strptime_ymd now1 now2 st)
               (today_rows stable_argsort strptime_ymd now1 now2 st)"
  proof (cases "course_data st")
    case None
    then show ?thesis by (simp add: today_rows_def unsorted_today_def ties_kept_def)
  next
    case (Some cd)
    let ?M = "merged_today strptime_ymd now1 now2 st cd"
    have "ties_kept start_key ?M (take_rows (stable_argsort (map start_key ?M)) ?M)"
      by (rule take_rows_stable)
    with Some show ?thesis by (simp add: today_rows_def unsorted_today_def)
  qed
  have one: "\<exists>res st'. get_today_courses argsort strptime_ymd now1 now2 st = Inr (res, st')
           \<and> sorted (map start_key (rows (deref st' res)))
           \<and> mset (rows (deref st' res)) = mset (unsorted_today strptime_ymd now1 now2 st)"
    if ok: "argsort_ok argsort"
  proof -
    from get_today_courses_result[of st argsort strptime_ymd now1 now2] nn
    obtain res st' where g: "get_today_courses argsort strptime_ymd now1 now2 st = Inr (res, st')"
      and r: "rows (deref st' res) = today_rows argsort strptime_ymd now1 now2 st"
      by blast
    from srt[OF ok] r
    have "get_today_courses argsort strptime_ymd now1 now2 st = Inr (res, st')
           \<and> sorted (map start_key (rows (deref st' res)))
           \<and> mset (rows (deref st' res)) = mset (unsorted_today strptime_ymd now1 now2 st)"
      using g by simp
    then show ?thesis by (intro exI)
  qed
  have two: "\<exists>res st'. get_today_courses stable_argsort strptime_ymd now1 now2 st = Inr (res, st')
           \<and> ties_kept start_key (unsorted_today strptime_ymd now1 now2 st)
                (rows (deref st' res))"
  proof -
    from get_today_courses_result[of st stable_argsort strptime_ymd now1 now2] nn
    obtain res st' where
      g: "get_today_courses stable_argsort strptime_ymd now1 now2 st = Inr (res, st')"
      and r: "rows (deref st' res) = today_rows stable_argsort strptime_ymd now1 now2 st"
      by blast
    from stb r
    have "get_today_courses stable_argsort strptime_ymd now1 now2 st = Inr (res, st')
           \<and> ties_kept start_key (unsorted_today strptime_ymd now1 now2 st)
                (rows (deref st' res))"
      using g by simp
    then show ?thesis by (intro exI)
  qed
  from one two show ?thesis by blast
qed

theorem get_today_courses_sorted_witness:
  "\<exists>res st'. get_today_courses stable_argsort example_strptime_ymd example_now example_now
                example_loaded = Inr (res, st')
     \<and> sorted (map start_key (rows (deref st' res)))
     \<and> mset (rows (deref st' res))
         = mset [replace_with adjustment_a row_math, row_art, new_course adjustment_b]"
proof -
  from get_today_courses_sorted[OF example_loaded_facts(2), of stable_argsort
      example_strptime_ymd example_now example_now] argsort_ok_stable
  obtain res st' where
    "get_today_courses stable_argsort example_strptime_ymd example_now example_now
       example_loaded = Inr (res, st')
     \<and> sorted (map start_key (rows (deref st' res)))
     \<and> mset (rows (deref st' res))
         = mset (unsorted_today example_strptime_ymd example_now example_now example_loaded)"
    by blast
  then have x: "get_today_courses stable_argsort example_strptime_ymd example_now example_now
       example_loaded = Inr (res, st')
     \<and> sorted (map start_key (rows (deref st' res)))
     \<and> mset (rows (deref st' res))
         = mset [replace_with adjustment_a row_math, row_art, new_course adjustment_b]"
    by (simp only: example_loaded_rows(1))
  show ?thesis by (rule exI[of _ res], rule exI[of _ st'], rule x)
qed

section \<open>The upload\<close>

text \<open>
  C3 says that an upload with all seven required columns succeeds and keeps the rows whose
  weekday is in 1..7. The code means to (its comment on the filter says so), but the filter
  is a chained comparison of two series, which raises \<^verbatim>\<open>ValueError\<close>: whatever the sheet
  holds, the import is reported as failed and the session stays as it was.
\<close>

theorem upload_block_fails:
  "list_all (\<lambda>col. col \<in> set (columns df)) required_cols \<Longrightarrow>
     (\<exists>e. upload_block to_int_column df st = (st, ImportFailed e))"
proof -
  assume "list_all (\<lambda>col. col \<in> set (columns df)) required_cols"
  then show ?thesis
    by (cases "to_int_column (map weekday (sheet_rows df))")
       (simp_all add: upload_block_def weekday_filter_def series_bool_def Let_def)
qed

theorem upload_block_fails_witness:
  "upload_block example_to_int_column \<lparr>columns = required_cols, sheet_rows = [row_math]\<rparr>
     example_state = (example_state, ImportFailed ValueError)"
proof -
  have "list_all (\<lambda>col. col \<in> set (columns \<lparr>columns = required_cols, sheet_rows = [row_math]\<rparr>))
          required_cols"
    by (simp add: required_cols_def)
  from upload_block_fails[OF this, of example_to_int_column example_state]
  obtain e where e: "upload_block example_to_int_column
      \<lparr>columns = required_cols, sheet_rows = [row_math]\<rparr> example_state
        = (example_state, ImportFailed e)"
    by blast
  have "upload_block example_to_int_column
      \<lparr>columns = required_cols, sheet_rows = [row_math]\<rparr> example_state
        \<noteq> (example_state, ImportFailed TypeError)"
    "upload_block example_to_int_column
      \<lparr>columns = required_cols, sheet_rows = [row_math]\<rparr> example_state
        \<noteq> (example_state, ImportFailed IndexError)"
    by code_simp+
  with e show ?thesis by (cases e) simp_all
qed

end
